theory Spec2Isabelle
  imports Main
begin

section \<open>Template instances of lit-html (src/lib/template-instance.ts)\<close>

text \<open>
  A shallow embedding of the class \<^verbatim>\<open>TemplateInstance\<close>: the two update methods
  (\<^verbatim>\<open>updateWithoutCommit\<close>, \<^verbatim>\<open>update\<close>) and the instantiation pass \<^verbatim>\<open>_clone\<close>.
  JavaScript's \<^verbatim>\<open>undefined\<close> and \<^verbatim>\<open>null\<close> are \<open>None\<close>: a hole of \<^verbatim>\<open>__parts\<close> (type
  \<^verbatim>\<open>Array<Part | undefined>\<close>), the value read past the end of an array, the node a
  tree walker returns when it has no node left.
\<close>

subsection \<open>The update protocol\<close>

text \<open>
  \<^verbatim>\<open>values[i]\<close> on a JavaScript array: \<^verbatim>\<open>undefined\<close> when \<open>i\<close> is out of range.
\<close>

definition js_index :: "'a option list \<Rightarrow> nat \<Rightarrow> 'a option" where
  "js_index xs i = (if i < length xs then xs ! i else None)"

text \<open>
  A \<^verbatim>\<open>Part\<close> is an interface of another module (part.ts): its two methods are
  parameters of the model. Each acts on a world \<open>'w\<close> (everything a Part can touch) and
  may throw (\<open>Inl\<close>), which ends the method of the template instance that called it.
\<close>

record ('p, 'v, 'w, 'e) part_ops =
  setValue :: "'p \<Rightarrow> 'v option \<Rightarrow> 'w \<Rightarrow> 'e + 'w"
  commit :: "'p \<Rightarrow> 'w \<Rightarrow> 'e + 'w"

text \<open>
  \<^verbatim>\<open>updateWithoutCommit\<close>, lines 48-57: the \<^verbatim>\<open>for (const part of this.__parts)\<close>
  loop with its counter \<open>i\<close>; the method returns \<^verbatim>\<open>this.__parts\<close>.
\<close>

fun updateWithoutCommit_loop ::
  "('p, 'v, 'w, 'e) part_ops \<Rightarrow> 'p option list \<Rightarrow> 'v option list \<Rightarrow> nat \<Rightarrow> 'w \<Rightarrow> 'e + 'w" where
  "updateWithoutCommit_loop ops [] values i w = Inr w"
| "updateWithoutCommit_loop ops (part # rest) values i w =
     (case part of
        None \<Rightarrow> updateWithoutCommit_loop ops rest values (i + 1) w
      | Some p \<Rightarrow>
          (case setValue ops p (js_index values i) w of
             Inl e \<Rightarrow> Inl e
           | Inr w' \<Rightarrow> updateWithoutCommit_loop ops rest values (i + 1) w'))"

definition updateWithoutCommit ::
  "('p, 'v, 'w, 'e) part_ops \<Rightarrow> 'p option list \<Rightarrow> 'v option list \<Rightarrow> 'w
     \<Rightarrow> 'e + ('p option list \<times> 'w)" where
  "updateWithoutCommit ops parts values w =
     (case updateWithoutCommit_loop ops parts values 0 w of
        Inl e \<Rightarrow> Inl e
      | Inr w' \<Rightarrow> Inr (parts, w'))"

text \<open>
  \<^verbatim>\<open>update\<close>, lines 59-72: its own copy of the staging loop (lines 60-66), then the
  commit loop (lines 67-71).
\<close>

fun update_stage_loop ::
  "('p, 'v, 'w, 'e) part_ops \<Rightarrow> 'p option list \<Rightarrow> 'v option list \<Rightarrow> nat \<Rightarrow> 'w \<Rightarrow> 'e + 'w" where
  "update_stage_loop ops [] values i w = Inr w"
| "update_stage_loop ops (part # rest) values i w =
     (case part of
        None \<Rightarrow> update_stage_loop ops rest values (i + 1) w
      | Some p \<Rightarrow>
          (case setValue ops p (js_index values i) w of
             Inl e \<Rightarrow> Inl e
           | Inr w' \<Rightarrow> update_stage_loop ops rest values (i + 1) w'))"

fun update_commit_loop ::
  "('p, 'v, 'w, 'e) part_ops \<Rightarrow> 'p option list \<Rightarrow> 'w \<Rightarrow> 'e + 'w" where
  "update_commit_loop ops [] w = Inr w"
| "update_commit_loop ops (part # rest) w =
     (case part of
        None \<Rightarrow> update_commit_loop ops rest w
      | Some p \<Rightarrow>
          (case commit ops p w of
             Inl e \<Rightarrow> Inl e
           | Inr w' \<Rightarrow> update_commit_loop ops rest w'))"

definition update ::
  "('p, 'v, 'w, 'e) part_ops \<Rightarrow> 'p option list \<Rightarrow> 'v option list \<Rightarrow> 'w \<Rightarrow> 'e + 'w" where
  "update ops parts values w =
     (case update_stage_loop ops parts values 0 w of
        Inl e \<Rightarrow> Inl e
      | Inr w' \<Rightarrow> update_commit_loop ops parts w')"

text \<open>
  The recording Parts: the world is the list of the calls made so far, a call appends
  itself and returns normally. What a method of the template instance calls, and in
  which order, is the list it leaves.
\<close>

datatype ('p, 'v) part_call = SetValue 'p "'v option" | Commit 'p

definition recording :: "('p, 'v, ('p, 'v) part_call list, unit) part_ops" where
  "recording =
     \<lparr> setValue = (\<lambda>p v w. Inr (w @ [SetValue p v])),
       commit = (\<lambda>p w. Inr (w @ [Commit p])) \<rparr>"

text \<open>
  The protocol in the words of the specification: staging calls the stage operation
  of each non-hole Part at ordinal \<open>k\<close> with \<open>values[k]\<close>; committing calls the commit
  operation of each non-hole Part, in the order of the list.
\<close>

definition spec_stage_calls :: "'p option list \<Rightarrow> 'v option list \<Rightarrow> ('p, 'v) part_call list" where
  "spec_stage_calls parts values =
     concat (map (\<lambda>(k, part). case part of None \<Rightarrow> [] | Some p \<Rightarrow> [SetValue p (js_index values k)])
                 (enumerate 0 parts))"

definition spec_commit_calls :: "'p option list \<Rightarrow> ('p, 'v) part_call list" where
  "spec_commit_calls parts =
     concat (map (\<lambda>part. case part of None \<Rightarrow> [] | Some p \<Rightarrow> [Commit p]) parts)"

fun is_SetValue :: "('p, 'v) part_call \<Rightarrow> bool" where
  "is_SetValue (SetValue p v) = True"
| "is_SetValue (Commit p) = False"

fun is_Commit :: "('p, 'v) part_call \<Rightarrow> bool" where
  "is_Commit (SetValue p v) = False"
| "is_Commit (Commit p) = True"

subsection \<open>The host tree\<close>

text \<open>
  The document object model is the platform's, not the repository's: it is modelled
  here from the DOM and HTML standards, as far as \<^verbatim>\<open>_clone\<close> uses it. A node is an
  element, a text node or a comment (the three kinds the walker of line 120 shows,
  \<^verbatim>\<open>whatToShow = 133\<close>). An element has its local name, its attributes in order (name
  and value), its children, and the children of its \<^verbatim>\<open>content\<close> fragment, which only a
  \<^verbatim>\<open>template\<close> element uses. Strings are lists of code units below 256.
\<close>

datatype Node =
    Element string "(string \<times> string) list" "Node list" "Node list"
  | Text string
  | Comment string

fun nodeType :: "Node \<Rightarrow> nat" where
  "nodeType (Element n a cs c) = 1"
| "nodeType (Text d) = 3"
| "nodeType (Comment d) = 8"

definition toUpper :: "char \<Rightarrow> char" where
  "toUpper c =
     (case map_of (zip ''abcdefghijklmnopqrstuvwxyz'' ''ABCDEFGHIJKLMNOPQRSTUVWXYZ'') c of
        Some u \<Rightarrow> u
      | None \<Rightarrow> c)"

text \<open>\<^verbatim>\<open>nodeName\<close> of an HTML element is its name in upper case.\<close>

fun nodeName :: "Node \<Rightarrow> string" where
  "nodeName (Element n a cs c) = map toUpper n"
| "nodeName (Text d) = ''#text''"
| "nodeName (Comment d) = ''#comment''"

text \<open>
  The fields of a node. Read on a node that does not have the field, they are empty;
  \<^verbatim>\<open>_clone\<close> reads \<^verbatim>\<open>localName\<close>, \<^verbatim>\<open>attributes\<close> and \<^verbatim>\<open>innerHTML\<close> of elements only.
\<close>

fun localNameOf :: "Node \<Rightarrow> string" where
  "localNameOf (Element n a cs c) = n"
| "localNameOf (Text d) = []"
| "localNameOf (Comment d) = []"

fun childrenOf :: "Node \<Rightarrow> Node list" where
  "childrenOf (Element n a cs c) = cs"
| "childrenOf (Text d) = []"
| "childrenOf (Comment d) = []"

fun contentOf :: "Node \<Rightarrow> Node list" where
  "contentOf (Element n a cs c) = c"
| "contentOf (Text d) = []"
| "contentOf (Comment d) = []"

fun attributesOf :: "Node \<Rightarrow> (string \<times> string) list" where
  "attributesOf (Element n a cs c) = a"
| "attributesOf (Text d) = []"
| "attributesOf (Comment d) = []"

fun withChildren :: "Node \<Rightarrow> Node list \<Rightarrow> Node" where
  "withChildren (Element n a cs c) cs' = Element n a cs' c"
| "withChildren (Text d) cs' = Text d"
| "withChildren (Comment d) cs' = Comment d"

fun withContent :: "Node \<Rightarrow> Node list \<Rightarrow> Node" where
  "withContent (Element n a cs c) c' = Element n a cs c'"
| "withContent (Text d) c' = Text d"
| "withContent (Comment d) c' = Comment d"

fun withAttributes :: "Node \<Rightarrow> (string \<times> string) list \<Rightarrow> Node" where
  "withAttributes (Element n a cs c) a' = Element n a' cs c"
| "withAttributes (Text d) a' = Text d"
| "withAttributes (Comment d) a' = Comment d"

text \<open>
  A reference to a node of the fragment is the node's address: the steps that lead
  from the node up to the fragment, innermost first. \<open>Child i\<close> is the \<open>i\<close>-th child of
  the parent, \<open>Content\<close> the content fragment of a template element. \<open>[]\<close> is the
  fragment itself (the walker's root); an address that starts with \<open>Content\<close> is a
  content fragment. \<^verbatim>\<open>replaceChild\<close> puts the new node at the address of the old one,
  so the addresses held by \<^verbatim>\<open>node\<close>, \<^verbatim>\<open>walker.currentNode\<close> and \<^verbatim>\<open>stack\<close> keep their
  meaning through the pass.
\<close>

datatype step = Child nat | Content

type_synonym ref = "step list"

text \<open>
  \<open>kids roots p\<close>: the child list of what the path \<open>p\<close> (outermost step first) leads to
  from the fragment with children \<open>roots\<close>; \<open>None\<close> when the path leads nowhere.
\<close>

fun kids :: "Node list \<Rightarrow> step list \<Rightarrow> Node list option" where
  "kids cs [] = Some cs"
| "kids cs (Content # p) = None"
| "kids cs (Child i # p) =
     (if i < length cs then
        (case p of
           Content # q \<Rightarrow> kids (contentOf (cs ! i)) q
         | _ \<Rightarrow> kids (childrenOf (cs ! i)) p)
      else None)"

definition node_at :: "Node list \<Rightarrow> ref \<Rightarrow> Node option" where
  "node_at roots r =
     (case r of
        Child i # up \<Rightarrow>
          (case kids roots (rev up) of
             Some cs \<Rightarrow> (if i < length cs then Some (cs ! i) else None)
           | None \<Rightarrow> None)
      | _ \<Rightarrow> None)"

text \<open>
  \<open>modify roots r f\<close>: the fragment with the node at \<open>r\<close> replaced by \<open>f\<close> of it. Every
  mutation of the tree that \<^verbatim>\<open>_clone\<close> makes is one of these.
\<close>

fun modify_from :: "Node list \<Rightarrow> step list \<Rightarrow> (Node \<Rightarrow> Node) \<Rightarrow> Node list" where
  "modify_from cs [] f = cs"
| "modify_from cs (Content # p) f = cs"
| "modify_from cs (Child i # p) f =
     (if i < length cs then
        (case p of
           [] \<Rightarrow> cs[i := f (cs ! i)]
         | Content # q \<Rightarrow> cs[i := withContent (cs ! i) (modify_from (contentOf (cs ! i)) q f)]
         | _ \<Rightarrow> cs[i := withChildren (cs ! i) (modify_from (childrenOf (cs ! i)) p f)])
      else cs)"

definition modify :: "Node list \<Rightarrow> ref \<Rightarrow> (Node \<Rightarrow> Node) \<Rightarrow> Node list" where
  "modify roots r f = modify_from roots (rev r) f"

definition firstChild :: "Node list \<Rightarrow> ref \<Rightarrow> ref option" where
  "firstChild roots r =
     (case kids roots (rev r) of
        Some (c # cs) \<Rightarrow> Some (Child 0 # r)
      | _ \<Rightarrow> None)"

definition nextSibling :: "Node list \<Rightarrow> ref \<Rightarrow> ref option" where
  "nextSibling roots r =
     (case r of
        Child i # up \<Rightarrow>
          (case kids roots (rev up) of
             Some cs \<Rightarrow> (if i + 1 < length cs then Some (Child (i + 1) # up) else None)
           | None \<Rightarrow> None)
      | _ \<Rightarrow> None)"

definition previousSibling :: "Node list \<Rightarrow> ref \<Rightarrow> ref option" where
  "previousSibling roots r =
     (case r of
        Child i # up \<Rightarrow>
          (case kids roots (rev up) of
             Some cs \<Rightarrow> (if 0 < i \<and> i - 1 < length cs then Some (Child (i - 1) # up) else None)
           | None \<Rightarrow> None)
      | _ \<Rightarrow> None)"

text \<open>
  \<^verbatim>\<open>TreeWalker.nextNode()\<close> with the fragment as root and every node shown: the first
  child of the current node if it has one, else the next sibling of the nearest of the
  node and its ancestors that has one. The climb ends with no node at the root and at a
  content fragment, which has no parent; this is what the browsers do and what the
  comment of lines 151-154 relies on. \<^verbatim>\<open>currentNode\<close> moves only when a node is found.
\<close>

fun nextSkippingChildren :: "Node list \<Rightarrow> ref \<Rightarrow> ref option" where
  "nextSkippingChildren roots [] = None"
| "nextSkippingChildren roots (Content # up) = None"
| "nextSkippingChildren roots (Child i # up) =
     (case nextSibling roots (Child i # up) of
        Some sibling \<Rightarrow> Some sibling
      | None \<Rightarrow> nextSkippingChildren roots up)"

definition nextNode :: "Node list \<Rightarrow> ref \<Rightarrow> ref option" where
  "nextNode roots current =
     (case firstChild roots current of
        Some c \<Rightarrow> Some c
      | None \<Rightarrow> nextSkippingChildren roots current)"



fun set_textContent :: "string \<Rightarrow> Node \<Rightarrow> Node" where
  "set_textContent s (Element n a cs c) = Element n a (if s = [] then [] else [Text s]) c"
| "set_textContent s (Text d) = Text s"
| "set_textContent s (Comment d) = Comment s"

text \<open>
  \<^verbatim>\<open>innerHTML\<close>, read: the HTML fragment serialisation of the children (of the content,
  for a template element). Text is escaped (\<open>&\<close>, the no-break space, \<open><\<close> and \<open>>\<close>)
  unless its parent is a raw text element; an attribute value has \<open>&\<close>, the no-break
  space and the double quote escaped; a void element has no end tag.
\<close>

fun escape :: "bool \<Rightarrow> string \<Rightarrow> string" where
  "escape attributeMode [] = []"
| "escape attributeMode (c # cs) =
     (if c = CHR ''&'' then ''&amp;''
      else if c = CHR 0xA0 then ''&nbsp;''
      else if attributeMode \<and> c = CHR 0x22 then ''&quot;''
      else if \<not> attributeMode \<and> c = CHR ''<'' then ''&lt;''
      else if \<not> attributeMode \<and> c = CHR ''>'' then ''&gt;''
      else [c]) @ escape attributeMode cs"

definition voidElements :: "string list" where
  "voidElements = [''area'', ''base'', ''basefont'', ''bgsound'', ''br'', ''col'', ''embed'',
     ''frame'', ''hr'', ''img'', ''input'', ''keygen'', ''link'', ''meta'', ''param'', ''source'',
     ''track'', ''wbr'']"

definition rawTextElements :: "string list" where
  "rawTextElements = [''style'', ''script'', ''xmp'', ''iframe'', ''noembed'', ''noframes'',
     ''plaintext'', ''noscript'']"

definition serialize_attribute :: "string \<times> string \<Rightarrow> string" where
  "serialize_attribute a = '' '' @ fst a @ ''='' @ [CHR 0x22] @ escape True (snd a) @ [CHR 0x22]"

fun serialize :: "bool \<Rightarrow> Node \<Rightarrow> string" where
  "serialize raw (Text d) = (if raw then d else escape False d)"
| "serialize raw (Comment d) = ''<!--'' @ d @ ''-->''"
| "serialize raw (Element n a cs c) =
     ''<'' @ n @ concat (map serialize_attribute a) @ ''>'' @
     (if n \<in> set voidElements then []
      else (if n = ''template''
            then concat (map (serialize (n \<in> set rawTextElements)) c)
            else concat (map (serialize (n \<in> set rawTextElements)) cs))
           @ ''</'' @ n @ ''>'')"

definition innerHTML :: "Node \<Rightarrow> string" where
  "innerHTML n =
     (if localNameOf n = ''template''
      then concat (map (serialize (localNameOf n \<in> set rawTextElements)) (contentOf n))
      else concat (map (serialize (localNameOf n \<in> set rawTextElements)) (childrenOf n)))"



subsection \<open>Strings and the marker scan\<close>

text \<open>
  \<^verbatim>\<open>String.prototype.includes\<close>, and \<^verbatim>\<open>String.prototype.replace\<close> with a string pattern,
  which replaces the first occurrence only.
\<close>

fun startsWith :: "string \<Rightarrow> string \<Rightarrow> bool" where
  "startsWith s [] = True"
| "startsWith [] (p # ps) = False"
| "startsWith (c # cs) (p # ps) = (c = p \<and> startsWith cs ps)"

fun includes_str :: "string \<Rightarrow> string \<Rightarrow> bool" where
  "includes_str [] pat = (pat = [])"
| "includes_str (c # cs) pat = (startsWith (c # cs) pat \<or> includes_str cs pat)"

fun replace :: "string \<Rightarrow> string \<Rightarrow> string \<Rightarrow> string" where
  "replace [] pat repl = (if pat = [] then repl else [])"
| "replace (c # cs) pat repl =
     (if startsWith (c # cs) pat then repl @ drop (length pat) (c # cs)
      else c # replace cs pat repl)"

text \<open>
  A source file of the repository exports
  \<^verbatim>\<open>customElementOpeningTagRegex = /<[a-zA-Z0-9]+-[a-zA-Z0-9-]+/g\<close>; \<^verbatim>\<open>_clone\<close> imports its
  marker scan from utils.js under the name \<^verbatim>\<open>customElementOpeningTagRe\<close>. The scan is
  therefore a parameter of the pass (below), and this regular expression is the scan of
  the examples. A match starts at a \<open><\<close> and holds no other \<open><\<close>, so matches never
  overlap and \<^verbatim>\<open>s.match(re)?.length || 0\<close> is the number of positions where the pattern
  matches: a \<open><\<close>, at least one letter or digit, a hyphen, and one more letter, digit
  or hyphen.
\<close>

definition isAlnum :: "char \<Rightarrow> bool" where
  "isAlnum c =
     (let n = (of_char c :: nat)
      in (97 \<le> n \<and> n \<le> 122) \<or> (65 \<le> n \<and> n \<le> 90) \<or> (48 \<le> n \<and> n \<le> 57))"

definition openingTag_at :: "string \<Rightarrow> bool" where
  "openingTag_at s =
     (case s of
        [] \<Rightarrow> False
      | c # rest \<Rightarrow>
          c = CHR ''<'' \<and> takeWhile isAlnum rest \<noteq> [] \<and>
          (case dropWhile isAlnum rest of
             [] \<Rightarrow> False
           | d # rest' \<Rightarrow>
               d = CHR ''-'' \<and>
               (case rest' of [] \<Rightarrow> False | e # rest'' \<Rightarrow> isAlnum e \<or> e = CHR ''-'')))"

fun customElementOpeningTagRegex_matches :: "string \<Rightarrow> nat" where
  "customElementOpeningTagRegex_matches [] = 0"
| "customElementOpeningTagRegex_matches (c # cs) =
     (if openingTag_at (c # cs) then 1 else 0) + customElementOpeningTagRegex_matches cs"

subsection \<open>Templates, processors, instances\<close>

text \<open>
  A \<^verbatim>\<open>TemplatePart\<close> (template.ts) is \<^verbatim>\<open>{type: 'node', index}\<close> or
  \<^verbatim>\<open>{type: 'attribute', index, name, strings}\<close>; a \<^verbatim>\<open>Template\<close> has its \<^verbatim>\<open>element\<close> (a
  template element) and its \<^verbatim>\<open>parts\<close>.
\<close>

datatype TemplatePart =
    NodePart (index: int)
  | AttributePart (index: int) string "string list"

record Template =
  element :: Node
  parts :: "TemplatePart list"

text \<open>
  The context (\<^verbatim>\<open>this.context\<close>, of type \<^verbatim>\<open>any\<close>) is used through its \<^verbatim>\<open>declarations\<close>
  only: a mapping from selectors to component constructors \<open>'c\<close>.
\<close>

record 'c Context =
  declarations :: "string \<Rightarrow> 'c option"

text \<open>
  The \<^verbatim>\<open>TemplateProcessor\<close> (template-processor.ts) creates the Parts \<open>'p\<close>. The element
  an attribute is bound on is passed by reference (\<open>None\<close> when \<^verbatim>\<open>node\<close> is null). The
  handlers, like the constructors of components and \<^verbatim>\<open>insertAfterNode\<close> of a Part, are
  code of the caller: they are taken to return and to leave the tree as it is.
\<close>

record ('p, 'o) TemplateProcessor =
  handleTextExpression :: "'o \<Rightarrow> TemplatePart \<Rightarrow> 'p"
  handleAttributeExpressions ::
    "ref option \<Rightarrow> string \<Rightarrow> string list \<Rightarrow> 'o \<Rightarrow> TemplatePart \<Rightarrow> 'p list"

text \<open>The read-only fields of a \<^verbatim>\<open>TemplateInstance\<close> (lines 34-46).\<close>

record ('c, 'p, 'o) TemplateInstance =
  this_template :: Template
  this_processor :: "('p, 'o) TemplateProcessor"
  this_options :: 'o
  this_context :: "'c Context option"

text \<open>
  What \<^verbatim>\<open>_clone\<close> imports from other modules and what it takes from the platform are
  parameters:
  \<^item> \<open>mark\<close> and \<open>isTemplatePartActive\<close> of template.ts;
  \<^item> \<open>customElementOpeningTagRe\<close>: for a string \<open>s\<close>, the value of
    \<^verbatim>\<open>s.match(customElementOpeningTagRe)?.length || 0\<close> (line 130);
  \<^item> \<open>isCEPolyfill\<close> of dom.ts;
  \<^item> \<open>customElements_get\<close>: the global registry, \<^verbatim>\<open>customElements.get\<close>;
  \<^item> \<open>construct c ctx\<close>: the element \<^verbatim>\<open>new c(ctx)\<close> creates, given by its local name, its
    attributes and its children;
  \<^item> \<open>adoptAndUpgrade\<close>: \<^verbatim>\<open>document.adoptNode\<close> followed by \<^verbatim>\<open>customElements.upgrade\<close>
    (lines 202-203), as a function of the fragment's children.
  The clone of the template's content (lines 113-115) has the shape of the content.
\<close>

record 'c host =
  mark :: string
  customElementOpeningTagRe :: "string \<Rightarrow> nat"
  isTemplatePartActive :: "TemplatePart \<Rightarrow> bool"
  isCEPolyfill :: bool
  customElements_get :: "string \<Rightarrow> 'c option"
  construct :: "'c \<Rightarrow> 'c Context \<Rightarrow> string \<times> (string \<times> string) list \<times> Node list"
  adoptAndUpgrade :: "Node list \<Rightarrow> Node list"

text \<open>
  The calls \<^verbatim>\<open>_clone\<close> makes to its collaborators, in order: a constructor call
  \<^verbatim>\<open>new ctor(this.context)\<close>, the two handlers of the processor, and
  \<^verbatim>\<open>textPart.insertAfterNode(anchor)\<close> with the anchor it is given.
\<close>

datatype ('c, 'p, 'o) collaborator_call =
    New 'c
  | HandleTextExpression 'o TemplatePart
  | InsertAfterNode 'p "ref option"
  | HandleAttributeExpressions "ref option" string "string list" 'o TemplatePart

text \<open>
  What \<^verbatim>\<open>_clone\<close> throws: a \<^verbatim>\<open>TypeError\<close> of the language (a property of \<^verbatim>\<open>null\<close>, a call
  of \<^verbatim>\<open>new\<close> on \<^verbatim>\<open>undefined\<close>, a value that is no node assigned to \<^verbatim>\<open>currentNode\<close>), or
  the \<^verbatim>\<open>Error\<close> of line 170 with its message.
\<close>

datatype error = TypeError | Error string

text \<open>
  The state of the pass: the local variables of \<^verbatim>\<open>_clone\<close>, the walker's current
  node, \<^verbatim>\<open>this.__parts\<close> and the calls made so far. A throw keeps the state it happened
  in: nothing is undone.
\<close>

record ('c, 'p, 'o) clone_state =
  fragment :: "Node list"
  stack :: "ref list"
  currentNode :: ref
  partIndex :: nat
  nodeIndex :: int
  node :: "ref option"
  customElementsCount :: int
  this_parts :: "'p option list"
  calls :: "('c, 'p, 'o) collaborator_call list"

type_synonym ('c, 'p, 'o) outcome =
  "(error \<times> ('c, 'p, 'o) clone_state) + ('c, 'p, 'o) clone_state"

subsection \<open>The instantiation pass\<close>

text \<open>\<^verbatim>\<open>node = walker.nextNode()\<close>.\<close>

definition walker_nextNode :: "('c, 'p, 'o) clone_state \<Rightarrow> ('c, 'p, 'o) clone_state" where
  "walker_nextNode s =
     (case nextNode (fragment s) (currentNode s) of
        None \<Rightarrow> s\<lparr>node := None\<rparr>
      | Some r \<Rightarrow> s\<lparr>node := Some r, currentNode := r\<rparr>)"

text \<open>
  The body of the inner loop, lines 145-157. \<^verbatim>\<open>node!.nodeName\<close> throws when \<^verbatim>\<open>node\<close> is
  null; \<^verbatim>\<open>stack.pop()\<close> of the empty stack is \<^verbatim>\<open>undefined\<close>, and assigning it to
  \<^verbatim>\<open>walker.currentNode\<close> throws. The top of the stack is the head of the list.
\<close>

definition advance_step :: "('c, 'p, 'o) clone_state \<Rightarrow> ('c, 'p, 'o) outcome" where
  "advance_step s =
     (let s1 = s\<lparr>nodeIndex := nodeIndex s + 1\<rparr> in
      case node s1 of
        None \<Rightarrow> Inl (TypeError, s1)
      | Some r \<Rightarrow>
          (let s2 = (if map_option nodeName (node_at (fragment s1) r) = Some ''TEMPLATE''
                     then s1\<lparr>stack := r # stack s1, currentNode := Content # r\<rparr>
                     else s1);
               s3 = walker_nextNode s2
           in case node s3 of
                Some r' \<Rightarrow> Inr s3
              | None \<Rightarrow>
                  (case stack s3 of
                     [] \<Rightarrow> Inl (TypeError, s3)
                   | t # rest \<Rightarrow> Inr (walker_nextNode (s3\<lparr>stack := rest, currentNode := t\<rparr>)))))"

lemma advance_step_nodeIndex:
  "advance_step s = Inr s' \<Longrightarrow> nodeIndex s' = nodeIndex s + 1"
  by (auto simp: advance_step_def walker_nextNode_def Let_def
           split: option.splits list.splits if_splits)

text \<open>The inner loop, line 144: \<^verbatim>\<open>while (part && nodeIndex < part.index)\<close>.\<close>

function advance :: "TemplatePart \<Rightarrow> ('c, 'p, 'o) clone_state \<Rightarrow> ('c, 'p, 'o) outcome" where
  "advance part s =
     (if nodeIndex s < index part then
        (case advance_step s of
           Inl e \<Rightarrow> Inl e
         | Inr s' \<Rightarrow> advance part s')
      else Inr s)"
  by pat_completeness auto
termination
  by (relation "measure (\<lambda>(part, s). nat (index part - nodeIndex s))")
     (auto dest: advance_step_nodeIndex)

text \<open>Line 163: \<^verbatim>\<open>node?.nodeType === 1 && node.localName.includes(mark)\<close>.\<close>

definition isCustomElement :: "'c host \<Rightarrow> ('c, 'p, 'o) clone_state \<Rightarrow> bool" where
  "isCustomElement h s =
     (case node s of
        None \<Rightarrow> False
      | Some r \<Rightarrow>
          (case node_at (fragment s) r of
             None \<Rightarrow> False
           | Some n \<Rightarrow> nodeType n = 1 \<and> includes_str (localNameOf n) (mark h)))"

text \<open>
  \<^verbatim>\<open>setAttributeNode\<close> replaces the attribute of the same name, or appends.
\<close>

fun setAttributeNode :: "(string \<times> string) list \<Rightarrow> string \<times> string \<Rightarrow> (string \<times> string) list" where
  "setAttributeNode [] attr = [attr]"
| "setAttributeNode (b # bs) attr =
     (if fst b = fst attr then attr # bs else b # setAttributeNode bs attr)"

lemma attributesOf_withAttributes:
  "length (attributesOf (withAttributes n a)) \<le> length a"
  by (cases n) auto

text \<open>
  The loop of lines 177-181 over \<^verbatim>\<open>oldNode.attributes\<close>, a live collection:
  \<^verbatim>\<open>attributes.length\<close> and \<^verbatim>\<open>attributes[i]\<close> are read from the old node as it is in that
  iteration, after the removals of the iterations before. The names of the attributes
  of an element are distinct, so \<^verbatim>\<open>removeAttributeNode(attr)\<close> removes the one pair that
  is \<open>attr\<close>. The old node is out of the tree by then (line 174), the instance is at
  \<open>r\<close>. The result is the old node and the fragment after the loop.
\<close>

function move_attributes :: "nat \<Rightarrow> Node \<Rightarrow> Node list \<Rightarrow> ref \<Rightarrow> Node \<times> Node list" where
  "move_attributes i oldNode frag r =
     (if i < length (attributesOf oldNode) then
        (let attr = attributesOf oldNode ! i;
             oldNode' = withAttributes oldNode (remove1 attr (attributesOf oldNode));
             frag' = modify frag r (\<lambda>inst. withAttributes inst (setAttributeNode (attributesOf inst) attr))
         in move_attributes (i + 1) oldNode' frag' r)
      else (oldNode, frag))"
  by pat_completeness auto
termination
proof (relation "measure (\<lambda>(i, oldNode, frag, r). length (attributesOf oldNode) - i)", goal_cases)
  case 1
  show ?case by simp
next
  case (2 i oldNode frag r attr oldNode' frag')
  have "attr \<in> set (attributesOf oldNode)" using 2 by simp
  then have "length (remove1 attr (attributesOf oldNode)) = length (attributesOf oldNode) - 1"
    by (simp add: length_remove1)
  then have "length (attributesOf oldNode') \<le> length (attributesOf oldNode) - 1"
    using attributesOf_withAttributes[of oldNode "remove1 attr (attributesOf oldNode)"] 2 by simp
  then show ?case using 2 by simp
qed

definition unresolved_message :: "string \<Rightarrow> string" where
  "unresolved_message selector =
     ''Make sure that you've added '' @ selector @ '' into declarations!''"

text \<open>
  Lines 165-183, the body of \<^verbatim>\<open>if (isCustomElement && this.context)\<close>. \<^verbatim>\<open>new ctor(...)\<close>
  throws when \<^verbatim>\<open>ctor\<close> is \<^verbatim>\<open>undefined\<close>. The instance takes the address of the old node
  (\<^verbatim>\<open>replaceChild\<close>), then gets its text content and the attributes.
\<close>

definition resolve_component ::
  "'c host \<Rightarrow> 'c Context \<Rightarrow> ('c, 'p, 'o) clone_state \<Rightarrow> ('c, 'p, 'o) outcome" where
  "resolve_component h ctx s =
     (let s1 = s\<lparr>customElementsCount := customElementsCount s - 1\<rparr> in
      case node s1 of
        None \<Rightarrow> Inl (TypeError, s1)
      | Some r \<Rightarrow>
          (case node_at (fragment s1) r of
             None \<Rightarrow> Inl (TypeError, s1)
           | Some oldNode \<Rightarrow>
               (let selector = replace (localNameOf oldNode) (mark h @ ''-'') [];
                    ctor = declarations ctx selector
                in if ctor = None \<and> customElements_get h selector = None
                   then Inl (Error (unresolved_message selector), s1)
                   else
                     (case ctor of
                        None \<Rightarrow> Inl (TypeError, s1)
                      | Some c \<Rightarrow>
                          (let (tag, attrs, children) = construct h c ctx;
                               inst = Element tag attrs children [];
                               s2 = s1\<lparr>calls := calls s1 @ [New c]\<rparr>;
                               s3 = s2\<lparr>fragment := modify (fragment s2) r (\<lambda>old. inst)\<rparr>;
                               s4 = s3\<lparr>fragment :=
                                        modify (fragment s3) r (set_textContent (innerHTML oldNode))\<rparr>;
                               (oldNode', frag') = move_attributes 0 oldNode (fragment s4) r
                           in Inr (s4\<lparr>fragment := frag', node := Some r, currentNode := r\<rparr>))))))"

definition resolve_if_custom ::
  "'c host \<Rightarrow> ('c, 'p, 'o) TemplateInstance \<Rightarrow> ('c, 'p, 'o) clone_state \<Rightarrow> ('c, 'p, 'o) outcome" where
  "resolve_if_custom h this s =
     (case (if isCustomElement h s then this_context this else None) of
        Some ctx \<Rightarrow> resolve_component h ctx s
      | None \<Rightarrow> Inr s)"

text \<open>
  Lines 187-196. \<^verbatim>\<open>node!.previousSibling!\<close> throws when \<^verbatim>\<open>node\<close> is null, after the
  handler has been called; the assertions are erased by the compiler, so a null
  previous sibling is passed on as it is.
\<close>

definition bind_part ::
  "('c, 'p, 'o) TemplateInstance \<Rightarrow> TemplatePart option \<Rightarrow> ('c, 'p, 'o) clone_state
     \<Rightarrow> ('c, 'p, 'o) outcome" where
  "bind_part this part s =
     (case part of
        None \<Rightarrow> Inr s
      | Some (NodePart i) \<Rightarrow>
          (let textPart = handleTextExpression (this_processor this) (this_options this) (NodePart i);
               s1 = s\<lparr>calls := calls s @ [HandleTextExpression (this_options this) (NodePart i)]\<rparr>
           in case node s1 of
                None \<Rightarrow> Inl (TypeError, s1)
              | Some r \<Rightarrow>
                  Inr (s1\<lparr>calls := calls s1 @ [InsertAfterNode textPart (previousSibling (fragment s1) r)],
                           this_parts := this_parts s1 @ [Some textPart],
                           partIndex := partIndex s1 + 1\<rparr>))
      | Some (AttributePart i nm strs) \<Rightarrow>
          (let ps = handleAttributeExpressions (this_processor this) (node s) nm strs
                      (this_options this) (AttributePart i nm strs)
           in Inr (s\<lparr>calls := calls s @ [HandleAttributeExpressions (node s) nm strs
                                              (this_options this) (AttributePart i nm strs)],
                      this_parts := this_parts s @ map Some ps,
                      partIndex := partIndex s + 1\<rparr>)))"

text \<open>Line 133: \<^verbatim>\<open>partIndex < parts.length + customElementsCount\<close>.\<close>

definition loop_condition :: "('c, 'p, 'o) TemplateInstance \<Rightarrow> ('c, 'p, 'o) clone_state \<Rightarrow> bool" where
  "loop_condition this s =
     (int (partIndex s) < int (length (parts (this_template this))) + customElementsCount s)"

text \<open>Line 134: \<^verbatim>\<open>part = parts[partIndex]\<close>, \<^verbatim>\<open>undefined\<close> past the end.\<close>

definition current_part :: "('c, 'p, 'o) TemplateInstance \<Rightarrow> ('c, 'p, 'o) clone_state \<Rightarrow> TemplatePart option" where
  "current_part this s =
     (if partIndex s < length (parts (this_template this))
      then Some (parts (this_template this) ! partIndex s)
      else None)"

text \<open>Lines 144-161: the inner loop when there is a part, one more node when not.\<close>

definition align :: "TemplatePart option \<Rightarrow> ('c, 'p, 'o) clone_state \<Rightarrow> ('c, 'p, 'o) outcome" where
  "align part s =
     (case part of
        Some p \<Rightarrow> advance p s
      | None \<Rightarrow> Inr (walker_nextNode s))"

text \<open>One iteration of the outer loop, lines 134-196.\<close>

definition clone_step ::
  "'c host \<Rightarrow> ('c, 'p, 'o) TemplateInstance \<Rightarrow> ('c, 'p, 'o) clone_state \<Rightarrow> ('c, 'p, 'o) outcome" where
  "clone_step h this s =
     (let part = current_part this s
      in if (case part of Some p \<Rightarrow> \<not> isTemplatePartActive h p | None \<Rightarrow> False)
         then Inr (s\<lparr>this_parts := this_parts s @ [None], partIndex := partIndex s + 1\<rparr>)
         else
           (case align part s of
              Inl e \<Rightarrow> Inl e
            | Inr s1 \<Rightarrow>
                (case resolve_if_custom h this s1 of
                   Inl e \<Rightarrow> Inl e
                 | Inr s2 \<Rightarrow> bind_part this part s2)))"

text \<open>
  The outer loop, line 133. It need not end: the result is \<open>None\<close> when it does not,
  \<open>Some (Inl (e, s))\<close> when it throws \<open>e\<close> in state \<open>s\<close>, \<open>Some (Inr s)\<close> when it ends in
  state \<open>s\<close>.
\<close>

partial_function (option) clone_loop ::
  "'c host \<Rightarrow> ('c, 'p, 'o) TemplateInstance \<Rightarrow> ('c, 'p, 'o) clone_state
     \<Rightarrow> ('c, 'p, 'o) outcome option" where
  "clone_loop h this s =
     (if loop_condition this s then
        (case clone_step h this s of
           Inl e \<Rightarrow> Some (Inl e)
         | Inr s' \<Rightarrow> clone_loop h this s')
      else Some (Inr s))"

declare clone_loop.simps [code]

text \<open>
  Lines 113-130, for a fresh instance (\<^verbatim>\<open>__parts\<close> empty, line 33): the clone, the
  walker at its root, the first \<^verbatim>\<open>walker.nextNode()\<close> and the marker count.
\<close>

definition clone_init :: "'c host \<Rightarrow> ('c, 'p, 'o) TemplateInstance \<Rightarrow> ('c, 'p, 'o) clone_state" where
  "clone_init h this =
     walker_nextNode
       \<lparr> fragment = contentOf (element (this_template this)),
         stack = [],
         currentNode = [],
         partIndex = 0,
         nodeIndex = 0,
         node = None,
         customElementsCount =
           int (customElementOpeningTagRe h (innerHTML (element (this_template this)))),
         this_parts = [],
         calls = [] \<rparr>"

text \<open>
  \<^verbatim>\<open>_clone\<close>: the state it leaves, with the fragment it returns in \<open>fragment\<close>.
\<close>

definition clone ::
  "'c host \<Rightarrow> ('c, 'p, 'o) TemplateInstance \<Rightarrow> ('c, 'p, 'o) outcome option" where
  "clone h this =
     (case clone_loop h this (clone_init h this) of
        None \<Rightarrow> None
      | Some (Inl e) \<Rightarrow> Some (Inl e)
      | Some (Inr s) \<Rightarrow>
          Some (Inr (if isCEPolyfill h then s\<lparr>fragment := adoptAndUpgrade h (fragment s)\<rparr> else s)))"

subsection \<open>Example hosts, processors and instances\<close>

text \<open>
  Concrete collaborators for the examples: Parts that only say what they are, a
  processor that creates one Part per hole of an attribute (the strings around \<open>n\<close> holes
  are \<open>n + 1\<close>), a processor that creates one Part per attribute, a host with the given
  marker and registry, whose marker scan is the regular expression above, whose parts
  are inactive at index \<open>-1\<close> (as in lit-html) and whose constructors are named by the
  element they create, and an instance of a template with the given content and parts.
  The examples use the marker \<open>x\<close>: a placeholder is \<^verbatim>\<open><x-widget>\<close>, its selector
  \<open>widget\<close>.
\<close>

datatype example_part = ExampleNodePart | ExampleAttributePart string nat

definition holes_processor :: "(example_part, unit) TemplateProcessor" where
  "holes_processor =
     \<lparr> handleTextExpression = (\<lambda>opts part. ExampleNodePart),
       handleAttributeExpressions =
         (\<lambda>node nm strs opts part. map (ExampleAttributePart nm) [0..<length strs - 1]) \<rparr>"

definition single_processor :: "(example_part, unit) TemplateProcessor" where
  "single_processor =
     \<lparr> handleTextExpression = (\<lambda>opts part. ExampleNodePart),
       handleAttributeExpressions = (\<lambda>node nm strs opts part. [ExampleAttributePart nm 0]) \<rparr>"

definition example_host :: "string \<Rightarrow> (string \<Rightarrow> string option) \<Rightarrow> string host" where
  "example_host marker registry =
     \<lparr> mark = marker,
       customElementOpeningTagRe = customElementOpeningTagRegex_matches,
       isTemplatePartActive = (\<lambda>part. index part \<noteq> - 1),
       isCEPolyfill = False,
       customElements_get = registry,
       construct = (\<lambda>c ctx. (c, [], [])),
       adoptAndUpgrade = (\<lambda>nodes. nodes) \<rparr>"

definition example_instance ::
  "Node list \<Rightarrow> TemplatePart list \<Rightarrow> (example_part, unit) TemplateProcessor
     \<Rightarrow> string Context option \<Rightarrow> (string, example_part, unit) TemplateInstance" where
  "example_instance nodes descriptors processor ctx =
     \<lparr> this_template = \<lparr> element = Element ''template'' [] [] nodes, parts = descriptors \<rparr>,
       this_processor = processor,
       this_options = (),
       this_context = ctx \<rparr>"

subsection \<open>Invariants of the pass\<close>

text \<open>
  \<open>same_bindings s s'\<close>: moving the walker changes neither the tree, nor the Parts, nor
  the counters of the outer loop, nor the calls made.
\<close>

definition same_bindings :: "('c, 'p, 'o) clone_state \<Rightarrow> ('c, 'p, 'o) clone_state \<Rightarrow> bool" where
  "same_bindings s s' = (fragment s' = fragment s \<and> partIndex s' = partIndex s
       \<and> customElementsCount s' = customElementsCount s
       \<and> this_parts s' = this_parts s \<and> calls s' = calls s)"

text \<open>
  \<open>ordinal_inv\<close>: the Parts list has one entry for each descriptor before \<open>partIndex\<close>,
  a hole exactly where the descriptor is inactive.
\<close>

definition ordinal_inv ::
  "'c host \<Rightarrow> ('c, 'p, 'o) TemplateInstance \<Rightarrow> ('c, 'p, 'o) clone_state \<Rightarrow> bool" where
  "ordinal_inv h this s =
     (partIndex s \<le> length (parts (this_template this)) \<and>
      map (\<lambda>p. p = None) (this_parts s) =
        map (\<lambda>d. \<not> isTemplatePartActive h d) (take (partIndex s) (parts (this_template this))))"

section \<open>Properties\<close>

subsection \<open>Properties of the update protocol\<close>

lemma update_stage_loop_eq:
  "update_stage_loop ops ps values i w = updateWithoutCommit_loop ops ps values i w"
  by (induction ps arbitrary: i w) (auto split: option.splits sum.splits)

lemma stage_calls_from:
  "updateWithoutCommit_loop recording ps values i w =
     Inr (w @ concat (map (\<lambda>(k, part). case part of None \<Rightarrow> []
                                        | Some p \<Rightarrow> [SetValue p (js_index values k)])
                          (enumerate i ps)))"
  by (induction ps arbitrary: i w) (auto simp: recording_def split: option.splits)

lemma commit_calls_from:
  "update_commit_loop recording ps w = Inr (w @ spec_commit_calls ps)"
  by (induction ps arbitrary: w) (auto simp: recording_def spec_commit_calls_def split: option.splits)

lemma staged_calls:
  "updateWithoutCommit_loop recording ps values 0 w = Inr (w @ spec_stage_calls ps values)"
  by (simp add: stage_calls_from spec_stage_calls_def)

lemma spec_stage_calls_only_SetValue: "list_all is_SetValue (spec_stage_calls ps values)"
proof -
  have "list_all is_SetValue
          (concat (map (\<lambda>(k, part). case part of None \<Rightarrow> []
                                    | Some p \<Rightarrow> [SetValue p (js_index values k)])
                       (enumerate i ps)))" for i
    by (induction ps arbitrary: i) (auto split: option.splits)
  then show ?thesis by (simp add: spec_stage_calls_def)
qed

lemma spec_commit_calls_only_Commit:
  "list_all is_Commit (spec_commit_calls ps :: ('p, 'v) part_call list)"
  by (induction ps) (auto simp: spec_commit_calls_def split: option.splits)

lemma stage_calls_by_ordinal:
  "concat (map (\<lambda>(k, part). case part of None \<Rightarrow> []
                           | Some p \<Rightarrow> [SetValue p (js_index values k)])
               (enumerate i ps)) =
   map (\<lambda>k. SetValue (the (ps ! (k - i))) (js_index values k))
       (filter (\<lambda>k. ps ! (k - i) \<noteq> None) [i..<i + length ps])"
proof (induction ps arbitrary: i)
  case Nil
  show ?case by simp
next
  case (Cons p ps)
  have shift: "(p # ps) ! (k - i) = ps ! (k - Suc i)"
    if "k \<in> set [Suc i..<Suc i + length ps]" for k
  proof -
    have "k - i = Suc (k - Suc i)" using that by auto
    then show ?thesis by simp
  qed
  have f: "filter (\<lambda>k. (p # ps) ! (k - i) \<noteq> None) [Suc i..<Suc i + length ps] =
           filter (\<lambda>k. ps ! (k - Suc i) \<noteq> None) [Suc i..<Suc i + length ps]"
    by (rule filter_cong) (simp_all only: shift)
  have m: "map (\<lambda>k. SetValue (the ((p # ps) ! (k - i))) (js_index values k))
               (filter (\<lambda>k. ps ! (k - Suc i) \<noteq> None) [Suc i..<Suc i + length ps]) =
           map (\<lambda>k. SetValue (the (ps ! (k - Suc i))) (js_index values k))
               (filter (\<lambda>k. ps ! (k - Suc i) \<noteq> None) [Suc i..<Suc i + length ps])"
    by (rule map_cong) (simp_all add: shift)
  have up: "[i..<i + length (p # ps)] = i # [Suc i..<Suc i + length ps]"
    by (simp add: upt_rec)
  show ?case
    unfolding up using Cons.IH[of "Suc i"] f m
    by (cases p) simp_all
qed

text \<open>
  C7. \<^verbatim>\<open>update(values)\<close> is staging followed by committing. For any Parts (also ones
  that throw), \<^verbatim>\<open>update\<close> is \<^verbatim>\<open>updateWithoutCommit\<close> followed by the commit loop; with
  the recording Parts the calls it makes are the calls of \<^verbatim>\<open>updateWithoutCommit\<close>
  (\<open>setValue(values[k])\<close> on each non-hole Part, \<open>k\<close> its position in the whole list),
  all of them before the first \<open>commit()\<close>, and then \<open>commit()\<close> on each non-hole Part
  in the order of the list.
\<close>

theorem update_is_stage_then_commit:
  "update ops ps values w =
     (case updateWithoutCommit ops ps values w of
        Inl e \<Rightarrow> Inl e
      | Inr (ps', w') \<Rightarrow> update_commit_loop ops ps' w')
   \<and> update recording ps values trace =
       Inr (trace @ spec_stage_calls ps values @ spec_commit_calls ps)
   \<and> updateWithoutCommit recording ps values trace =
       Inr (ps, trace @ spec_stage_calls ps values)
   \<and> list_all is_SetValue (spec_stage_calls ps values)
   \<and> list_all is_Commit (spec_commit_calls ps :: ('p, 'v) part_call list)"
proof -
  have generic: "update ops ps values w =
     (case updateWithoutCommit ops ps values w of
        Inl e \<Rightarrow> Inl e
      | Inr (ps', w') \<Rightarrow> update_commit_loop ops ps' w')"
    by (simp add: update_def updateWithoutCommit_def update_stage_loop_eq split: sum.splits)
  have upd: "update recording ps values trace =
       Inr (trace @ spec_stage_calls ps values @ spec_commit_calls ps)"
    by (simp add: update_def update_stage_loop_eq staged_calls commit_calls_from)
  have stage: "updateWithoutCommit recording ps values trace =
       Inr (ps, trace @ spec_stage_calls ps values)"
    by (simp add: updateWithoutCommit_def staged_calls)
  show ?thesis
    using generic upd stage spec_stage_calls_only_SetValue spec_commit_calls_only_Commit
    by blast
qed

text \<open>
  C8. \<^verbatim>\<open>updateWithoutCommit(values)\<close> returns the Parts list and makes exactly these
  calls, in this order: for each position \<open>k\<close> of the whole list (holes counted) that
  holds a Part, \<open>setValue(values[k])\<close> on that Part. A hole gets no call, and no call is a
  \<open>commit()\<close>.
\<close>

theorem updateWithoutCommit_stages_by_ordinal:
  "updateWithoutCommit recording ps values trace =
     Inr (ps, trace @ map (\<lambda>k. SetValue (the (ps ! k)) (js_index values k))
                        (filter (\<lambda>k. ps ! k \<noteq> None) [0..<length ps]))
   \<and> list_all (\<lambda>c. \<not> is_Commit c)
        (map (\<lambda>k. SetValue (the (ps ! k)) (js_index values k) :: ('p, 'v) part_call)
             (filter (\<lambda>k. ps ! k \<noteq> None) [0..<length ps]))"
proof -
  have "updateWithoutCommit_loop recording ps values 0 trace =
     Inr (trace @ map (\<lambda>k. SetValue (the (ps ! k)) (js_index values k))
                    (filter (\<lambda>k. ps ! k \<noteq> None) [0..<length ps]))"
    using stage_calls_by_ordinal[of "values" 0 ps] by (simp add: stage_calls_from)
  moreover have "list_all (\<lambda>c. \<not> is_Commit c)
        (map (\<lambda>k. SetValue (the (ps ! k)) (js_index values k) :: ('p, 'v) part_call)
             (filter (\<lambda>k. ps ! k \<noteq> None) [0..<length ps]))"
    by (simp add: list_all_iff)
  ultimately show ?thesis by (simp add: updateWithoutCommit_def)
qed

theorem updateWithoutCommit_stages_by_ordinal_witness:
  "updateWithoutCommit recording [Some (1::nat), None, Some 2] [Some ''a'', Some ''b''] [] =
     Inr ([Some 1, None, Some 2], [SetValue 1 (Some ''a''), SetValue 2 None])"
  using updateWithoutCommit_stages_by_ordinal[of "[Some (1::nat), None, Some 2]" "[Some ''a'', Some ''b'']" "[]"]
  by (simp add: js_index_def upt_rec)

subsection \<open>Properties of the host tree\<close>

lemma modify_from_Nil [simp]: "modify_from [] p f = []"
proof (cases p)
  case Nil
  then show ?thesis by simp
next
  case (Cons st q)
  then show ?thesis by (cases st) simp_all
qed






subsection \<open>Properties of the instantiation pass\<close>

lemma walker_nextNode_fields [simp]:
  "fragment (walker_nextNode s) = fragment s"
  "stack (walker_nextNode s) = stack s"
  "partIndex (walker_nextNode s) = partIndex s"
  "nodeIndex (walker_nextNode s) = nodeIndex s"
  "customElementsCount (walker_nextNode s) = customElementsCount s"
  "this_parts (walker_nextNode s) = this_parts s"
  "calls (walker_nextNode s) = calls s"
  by (simp_all add: walker_nextNode_def split: option.splits)

lemma same_bindings_refl [simp]: "same_bindings s s"
  by (simp add: same_bindings_def)

lemma same_bindings_trans: "same_bindings s s1 \<Longrightarrow> same_bindings s1 s2 \<Longrightarrow> same_bindings s s2"
  by (simp add: same_bindings_def)

lemma same_bindings_walker [simp]: "same_bindings s (walker_nextNode s)"
  by (simp add: same_bindings_def)

lemma same_bindings_upd [simp]:
  "same_bindings s (s\<lparr>nodeIndex := n\<rparr>)"
  "same_bindings s (s\<lparr>stack := st, currentNode := c\<rparr>)"
  by (simp_all add: same_bindings_def)

lemma advance_step_cases:
  "advance_step s = Inl (e, s') \<or> advance_step s = Inr s' \<Longrightarrow> same_bindings s s'"
  unfolding advance_step_def Let_def same_bindings_def
  by (auto split: option.splits list.splits if_splits)

lemma advance_same_bindings:
  "advance part s = Inl (e, s') \<or> advance part s = Inr s' \<Longrightarrow> same_bindings s s'"
proof (induction part s rule: advance.induct)
  case (1 part s)
  show ?case
  proof (cases "nodeIndex s < index part")
    case False
    with "1.prems" show ?thesis by simp
  next
    case True
    show ?thesis
    proof (cases "advance_step s")
      case (Inl x)
      with True "1.prems" have "advance_step s = Inl (e, s')" by simp
      then show ?thesis using advance_step_cases by blast
    next
      case (Inr s1)
      with True "1.prems" have "advance part s1 = Inl (e, s') \<or> advance part s1 = Inr s'" by simp
      then have "same_bindings s1 s'" using "1.IH"[OF True Inr] by blast
      moreover have "same_bindings s s1" using advance_step_cases Inr by blast
      ultimately show ?thesis by (rule same_bindings_trans[rotated])
    qed
  qed
qed

lemma align_same_bindings:
  "align part s = Inl (e, s') \<or> align part s = Inr s' \<Longrightarrow> same_bindings s s'"
  using advance_same_bindings[of _ s e s']
  by (cases part) (auto simp: align_def)

lemma resolve_component_Inr:
  assumes "resolve_component h ctx s = Inr s'"
  shows "partIndex s' = partIndex s \<and> this_parts s' = this_parts s
       \<and> customElementsCount s' = customElementsCount s - 1"
  using assms unfolding resolve_component_def Let_def
  by (simp split: option.splits if_splits prod.splits) auto

lemma resolve_if_custom_Inr:
  assumes "resolve_if_custom h this s = Inr s'"
  shows "partIndex s' = partIndex s \<and> this_parts s' = this_parts s
       \<and> customElementsCount s' \<le> customElementsCount s"
  using assms resolve_component_Inr[of h _ s s']
  by (auto simp: resolve_if_custom_def split: option.splits if_splits)

lemma take_Suc_snoc: "n < length xs \<Longrightarrow> take (Suc n) xs = take n xs @ [xs ! n]"
  by (simp add: take_Suc_conv_app_nth)

lemma bind_part_inv:
  assumes single: "\<And>i nm strs n.
      AttributePart i nm strs \<in> set (parts (this_template this)) \<Longrightarrow>
      isTemplatePartActive h (AttributePart i nm strs) \<Longrightarrow>
      length (handleAttributeExpressions (this_processor this) n nm strs (this_options this)
                (AttributePart i nm strs)) = 1"
    and inv: "ordinal_inv h this s"
    and part: "part = current_part this s"
    and active: "case part of Some p \<Rightarrow> isTemplatePartActive h p | None \<Rightarrow> True"
    and bind: "bind_part this part s = Inr s'"
  shows "ordinal_inv h this s'"
proof (cases part)
  case None
  with bind inv show ?thesis by (simp add: bind_part_def)
next
  case (Some d)
  with part have lt: "partIndex s < length (parts (this_template this))"
    and d: "d = parts (this_template this) ! partIndex s"
    by (auto simp: current_part_def split: if_splits)
  from Some active have act: "isTemplatePartActive h d" by simp
  show ?thesis
  proof (cases d)
    case (NodePart i)
    with Some bind obtain r where s': "s' = s\<lparr>calls := calls s @ [HandleTextExpression (this_options this) (NodePart i)]\<rparr>
          \<lparr>calls := calls s @ [HandleTextExpression (this_options this) (NodePart i)] @ [InsertAfterNode (handleTextExpression (this_processor this) (this_options this) (NodePart i)) (previousSibling (fragment s) r)],
           this_parts := this_parts s @ [Some (handleTextExpression (this_processor this) (this_options this) (NodePart i))],
           partIndex := partIndex s + 1\<rparr>"
      by (auto simp: bind_part_def Let_def split: option.splits)
    show ?thesis
      using inv lt act d NodePart unfolding s' ordinal_inv_def
      by (simp add: take_Suc_snoc)
  next
    case (AttributePart i nm strs)
    let ?ps = "handleAttributeExpressions (this_processor this) (node s) nm strs
                      (this_options this) (AttributePart i nm strs)"
    have "AttributePart i nm strs \<in> set (parts (this_template this))"
      using d AttributePart nth_mem[OF lt] by simp
    moreover have "isTemplatePartActive h (AttributePart i nm strs)"
      using act AttributePart by simp
    ultimately have "length ?ps = 1" by (rule single)
    then obtain q where q: "?ps = [q]" by (cases ?ps) auto
    from Some AttributePart bind have s': "s' = s\<lparr>calls := calls s @ [HandleAttributeExpressions (node s) nm strs
                                              (this_options this) (AttributePart i nm strs)],
                      this_parts := this_parts s @ map Some ?ps,
                      partIndex := partIndex s + 1\<rparr>"
      by (auto simp: bind_part_def Let_def)
    show ?thesis
      using inv lt act d AttributePart unfolding s' ordinal_inv_def q
      by (simp add: take_Suc_snoc)
  qed
qed

lemma ordinal_inv_cong:
  "partIndex s' = partIndex s \<Longrightarrow> this_parts s' = this_parts s \<Longrightarrow>
   ordinal_inv h this s = ordinal_inv h this s'"
  by (simp add: ordinal_inv_def)

lemma current_part_cong:
  "partIndex s' = partIndex s \<Longrightarrow> current_part this s' = current_part this s"
  by (simp add: current_part_def)

lemma clone_step_inv:
  assumes single: "\<And>i nm strs n.
      AttributePart i nm strs \<in> set (parts (this_template this)) \<Longrightarrow>
      isTemplatePartActive h (AttributePart i nm strs) \<Longrightarrow>
      length (handleAttributeExpressions (this_processor this) n nm strs (this_options this)
                (AttributePart i nm strs)) = 1"
    and inv: "ordinal_inv h this s"
    and step: "clone_step h this s = Inr s'"
  shows "ordinal_inv h this s'"
proof (cases "case current_part this s of Some p \<Rightarrow> \<not> isTemplatePartActive h p | None \<Rightarrow> False")
  case True
  then obtain d where d: "current_part this s = Some d" and inact: "\<not> isTemplatePartActive h d"
    by (auto split: option.splits)
  from d have lt: "partIndex s < length (parts (this_template this))"
    and dd: "d = parts (this_template this) ! partIndex s"
    by (auto simp: current_part_def split: if_splits)
  from True step have s': "s' = s\<lparr>this_parts := this_parts s @ [None], partIndex := partIndex s + 1\<rparr>"
    by (simp add: clone_step_def Let_def)
  show ?thesis using inv lt inact dd unfolding s' ordinal_inv_def
    by (simp add: take_Suc_snoc)
next
  case False
  with step obtain s1 s2 where a: "align (current_part this s) s = Inr s1"
    and r: "resolve_if_custom h this s1 = Inr s2"
    and b: "bind_part this (current_part this s) s2 = Inr s'"
    by (auto simp: clone_step_def Let_def split: sum.splits)
  from align_same_bindings[of "current_part this s" s undefined s1] a
  have 1: "partIndex s1 = partIndex s" "this_parts s1 = this_parts s"
    by (simp_all add: same_bindings_def)
  from resolve_if_custom_Inr[OF r] 1
  have 2: "partIndex s2 = partIndex s" "this_parts s2 = this_parts s" by simp_all
  have inv2: "ordinal_inv h this s2"
    using inv ordinal_inv_cong[OF 2] by simp
  have part2: "current_part this s = current_part this s2"
    using current_part_cong[OF 2(1)] by simp
  have act: "case current_part this s of Some p \<Rightarrow> isTemplatePartActive h p | None \<Rightarrow> True"
    using False by (auto split: option.splits)
  show ?thesis
    by (rule bind_part_inv[OF single inv2 part2 act b])
qed

lemma clone_loop_inv:
  assumes run: "clone_loop h this s = Some y"
    and single: "\<And>i nm strs n.
      AttributePart i nm strs \<in> set (parts (this_template this)) \<Longrightarrow>
      isTemplatePartActive h (AttributePart i nm strs) \<Longrightarrow>
      length (handleAttributeExpressions (this_processor this) n nm strs (this_options this)
                (AttributePart i nm strs)) = 1"
    and inv: "ordinal_inv h this s"
    and y: "y = Inr s'"
  shows "ordinal_inv h this s' \<and> \<not> loop_condition this s'"
  using run single inv y
proof (induction h this s y rule: clone_loop.raw_induct[rotated 1, consumes 1])
  case (1 clone_loop' h this s y)
  show ?case
  proof (cases "loop_condition this s")
    case False
    with "1.hyps" "1.prems" show ?thesis by simp
  next
    case True
    show ?thesis
    proof (cases "clone_step h this s")
      case (Inl e)
      with True "1.hyps" "1.prems" show ?thesis by simp
    next
      case (Inr s1)
      with True "1.hyps" have "clone_loop' h this s1 = Some y" by simp
      moreover have "ordinal_inv h this s1"
        using clone_step_inv[OF "1.prems"(1) "1.prems"(2) Inr] .
      ultimately show ?thesis using "1.IH" "1.prems" by blast
    qed
  qed
qed

lemma clone_loop_diverges:
  assumes start: "I s"
    and step: "\<And>s. I s \<Longrightarrow> loop_condition this s \<and> (\<exists>s'. clone_step h this s = Inr s' \<and> I s')"
  shows "clone_loop h this s = None"
proof (rule ccontr)
  assume "clone_loop h this s \<noteq> None"
  then obtain y where run: "clone_loop h this s = Some y" by blast
  have "clone_loop h0 this0 s = Some y \<Longrightarrow> h0 = h \<Longrightarrow> this0 = this \<Longrightarrow> \<not> I s" for h0 this0
  proof (induction h0 this0 s y rule: clone_loop.raw_induct[rotated 1, consumes 1])
    case (1 clone_loop' h0 this0 s y)
    show ?case
    proof
      assume inv: "I s"
      from step[OF inv] obtain s' where cond: "loop_condition this s"
        and st: "clone_step h this s = Inr s'" and inv': "I s'"
        by blast
      from "1.hyps" cond st "1.prems" have "clone_loop' h this s' = Some y" by simp
      from "1.IH"[OF this] "1.prems" inv' show False by simp
    qed
  qed
  from this[OF run refl refl] start show False by simp
qed

text \<open>
  A template whose only node is the element \<^verbatim>\<open><x-widget>\<close>, with no part descriptor: the
  loop never leaves the state it starts in, whatever the marker, the registry, the
  processor and the context are.
\<close>

lemma lone_slot_loop_diverges:
  "clone_loop (example_host marker registry)
     (example_instance [Element ''x-widget'' [] [] []] [] processor ctx)
     (clone_init (example_host marker registry)
        (example_instance [Element ''x-widget'' [] [] []] [] processor ctx)) = None"
proof -
  let ?H = "example_host marker registry"
  let ?I = "example_instance [Element ''x-widget'' [] [] []] [] processor ctx"
  let ?Inv = "\<lambda>s :: (string, example_part, unit) clone_state.
      fragment s = [Element ''x-widget'' [] [] []] \<and> currentNode s = [Child 0] \<and>
      partIndex s = 0 \<and> customElementsCount s = 1"
  have scan: "customElementOpeningTagRegex_matches
      (innerHTML (Element ''template'' [] [] [Element ''x-widget'' [] [] []])) = 1"
    by code_simp
  have init: "?Inv (clone_init ?H ?I)"
    using scan
    by (simp add: clone_init_def walker_nextNode_def example_instance_def example_host_def
          nextNode_def firstChild_def)
  have step: "loop_condition ?I s \<and> (\<exists>s'. clone_step ?H ?I s = Inr s' \<and> ?Inv s')" if "?Inv s" for s
  proof -
    have cond: "loop_condition ?I s"
      using that by (simp add: loop_condition_def example_instance_def)
    have part: "current_part ?I s = None"
      by (simp add: current_part_def example_instance_def)
    have nxt: "nextNode (fragment s) (currentNode s) = None"
      using that by (simp add: nextNode_def firstChild_def nextSibling_def)
    then have walk: "walker_nextNode s = s\<lparr>node := None\<rparr>"
      by (simp add: walker_nextNode_def)
    have "\<not> isCustomElement ?H (s\<lparr>node := None\<rparr>)"
      by (simp add: isCustomElement_def)
    then have "resolve_if_custom ?H ?I (s\<lparr>node := None\<rparr>) = Inr (s\<lparr>node := None\<rparr>)"
      by (simp add: resolve_if_custom_def)
    then have "clone_step ?H ?I s = Inr (s\<lparr>node := None\<rparr>)"
      using part walk by (simp add: clone_step_def align_def bind_part_def)
    with cond that show ?thesis by simp
  qed
  show ?thesis
    by (rule clone_loop_diverges[where I = ?Inv and s = "clone_init ?H ?I", OF init step])
qed

subsection \<open>The claims about the instantiation pass\<close>

lemma ordinal_inv_init: "ordinal_inv h this (clone_init h this)"
  by (simp add: ordinal_inv_def clone_init_def)

lemma ordinal_inv_pointwise:
  assumes "ordinal_inv h this s" and "partIndex s = length (parts (this_template this))"
  shows "length (this_parts s) = length (parts (this_template this)) \<and>
         (\<forall>k < length (parts (this_template this)).
            (this_parts s ! k = None) = (\<not> isTemplatePartActive h (parts (this_template this) ! k)))"
proof -
  from assms have eq: "map (\<lambda>p. p = None) (this_parts s) =
      map (\<lambda>d. \<not> isTemplatePartActive h d) (parts (this_template this))"
    by (simp add: ordinal_inv_def)
  then have len: "length (this_parts s) = length (parts (this_template this))"
    using map_eq_imp_length_eq by blast
  have "(this_parts s ! k = None) = (\<not> isTemplatePartActive h (parts (this_template this) ! k))"
    if "k < length (parts (this_template this))" for k
  proof -
    have "map (\<lambda>p. p = None) (this_parts s) ! k =
          map (\<lambda>d. \<not> isTemplatePartActive h d) (parts (this_template this)) ! k"
      using eq by simp
    then show ?thesis using that len by simp
  qed
  with len show ?thesis by blast
qed

text \<open>
  C1, as the specification states it, fails: an active attribute descriptor adds to the
  Parts list whatever the handler returns (line 194 spreads the returned array), so one
  descriptor of an attribute with two holes leaves two Parts.
\<close>

theorem fan_out_counterexample:
  "map_option (map_sum fst this_parts)
     (clone (example_host ''x'' Map.empty)
        (example_instance [Element ''div'' [] [] []]
           [AttributePart 0 ''class'' [''a '', '' b '', '''']] holes_processor None)) =
     Some (Inr [Some (ExampleAttributePart ''class'' 0), Some (ExampleAttributePart ''class'' 1)])
   \<and> length (parts (this_template
        (example_instance [Element ''div'' [] [] []]
           [AttributePart 0 ''class'' [''a '', '' b '', '''']] holes_processor None))) = 1"
  by code_simp

text \<open>
  C1, amended. When \<^verbatim>\<open>_clone\<close> returns, the attribute handler returns exactly one Part
  for each active attribute descriptor of the template (on whatever element it is
  called), and the pass has not resolved more component slots than the marker scan
  counted (the counter is not below zero at the end), then the Parts list is as long as
  the list of descriptors and its entry at \<open>k\<close> is a hole if and only if descriptor \<open>k\<close>
  is inactive.
\<close>

theorem ordinal_correspondence:
  assumes run: "clone h this = Some (Inr s)"
    and count: "0 \<le> customElementsCount s"
    and single: "\<forall>i nm strs n.
      AttributePart i nm strs \<in> set (parts (this_template this)) \<and>
      isTemplatePartActive h (AttributePart i nm strs) \<longrightarrow>
      length (handleAttributeExpressions (this_processor this) n nm strs (this_options this)
                (AttributePart i nm strs)) = 1"
  shows "length (this_parts s) = length (parts (this_template this)) \<and>
         (\<forall>k < length (parts (this_template this)).
            (this_parts s ! k = None) = (\<not> isTemplatePartActive h (parts (this_template this) ! k)))"
proof -
  from run obtain s0 where loop: "clone_loop h this (clone_init h this) = Some (Inr s0)"
    and s: "s = (if isCEPolyfill h then s0\<lparr>fragment := adoptAndUpgrade h (fragment s0)\<rparr> else s0)"
    by (auto simp: clone_def split: option.splits sum.splits)
  from single have single': "\<And>i nm strs n.
      AttributePart i nm strs \<in> set (parts (this_template this)) \<Longrightarrow>
      isTemplatePartActive h (AttributePart i nm strs) \<Longrightarrow>
      length (handleAttributeExpressions (this_processor this) n nm strs (this_options this)
                (AttributePart i nm strs)) = 1"
    by blast
  from clone_loop_inv[OF loop single' ordinal_inv_init refl]
  have inv: "ordinal_inv h this s0" and stop: "\<not> loop_condition this s0" by simp_all
  from s have same: "this_parts s = this_parts s0" "customElementsCount s = customElementsCount s0"
    by (simp_all split: if_splits)
  from inv have "partIndex s0 \<le> length (parts (this_template this))"
    by (simp add: ordinal_inv_def)
  with stop count same have "partIndex s0 = length (parts (this_template this))"
    by (simp add: loop_condition_def)
  from ordinal_inv_pointwise[OF inv this] same show ?thesis by simp
qed

text \<open>
  The witness uses the processor that creates one Part per hole, on a template whose
  attribute descriptor has one hole (two strings), followed by a node descriptor and an
  inactive descriptor.
\<close>

theorem ordinal_correspondence_witness:
  "(case clone (example_host ''x'' Map.empty)
           (example_instance [Element ''div'' [] [Comment '''', Comment ''m''] []]
              [AttributePart 0 ''class'' [''a '', ''''], NodePart 2, NodePart (- 1)]
              holes_processor None) of
      Some (Inr s) \<Rightarrow>
        this_parts s = [Some (ExampleAttributePart ''class'' 0), Some ExampleNodePart, None] \<and>
        length (this_parts s) = 3 \<and> this_parts s ! 2 = None \<and> this_parts s ! 1 \<noteq> None
    | _ \<Rightarrow> False)"
proof -
  let ?H = "example_host ''x'' Map.empty"
  let ?I = "example_instance [Element ''div'' [] [Comment '''', Comment ''m''] []]
              [AttributePart 0 ''class'' [''a '', ''''], NodePart 2, NodePart (- 1)]
              holes_processor None"
  let ?S = "\<lparr>fragment = [Element ''div'' [] [Comment [], Comment ''m''] []],
          stack = [], currentNode = [Child 1, Child 0], partIndex = 3,
          nodeIndex = 2, node = Some [Child 1, Child 0],
          customElementsCount = 0,
          this_parts = [Some (ExampleAttributePart ''class'' 0), Some ExampleNodePart, None],
          calls =
            [HandleAttributeExpressions (Some [Child 0]) ''class'' [''a '', []] ()
               (AttributePart 0 ''class'' [''a '', []]),
             HandleTextExpression () (NodePart 2),
             InsertAfterNode ExampleNodePart (Some [Child 0, Child 0])]\<rparr>"
  have run: "clone ?H ?I = Some (Inr ?S)"
    by code_simp
  have count: "0 \<le> customElementsCount ?S" by simp
  have single: "\<forall>i nm strs n.
      AttributePart i nm strs \<in> set (parts (this_template ?I)) \<and>
      isTemplatePartActive ?H (AttributePart i nm strs) \<longrightarrow>
      length (handleAttributeExpressions (this_processor ?I) n nm strs (this_options ?I)
                (AttributePart i nm strs)) = 1"
    by (auto simp: example_instance_def holes_processor_def)
  from ordinal_correspondence[OF run count single]
  show ?thesis unfolding run by (simp add: example_instance_def)
qed

text \<open>
  The condition on the counter is needed. The element \<^verbatim>\<open><xa>\<close> includes the marker
  \<open>x\<close>, so the pass resolves it as a component slot, but the marker scan does not count
  it (its name has no hyphen): the counter goes from 0 to \<open>-1\<close>, the loop condition
  \<open>1 < 2 + (-1)\<close> is false after the first descriptor, and the second descriptor is never
  bound: one Part for two descriptors.
\<close>

lemma uncounted_slot_stops_early:
  "clone (example_host ''x'' Map.empty)
     (example_instance [Element ''xa'' [] [] [], Comment '''', Comment ''m'']
        [AttributePart 0 ''class'' [''a '', ''''], NodePart 2] single_processor
        (Some \<lparr>declarations = [''xa'' \<mapsto> ''my-widget'']\<rparr>)) =
   Some (Inr \<lparr>fragment = [Element ''my-widget'' [] [] [], Comment [], Comment ''m''],
          stack = [], currentNode = [Child 0], partIndex = 1, nodeIndex = 0,
          node = Some [Child 0], customElementsCount = - 1,
          this_parts = [Some (ExampleAttributePart ''class'' 0)],
          calls =
            [New ''my-widget'',
             HandleAttributeExpressions (Some [Child 0]) ''class'' [''a '', []] ()
               (AttributePart 0 ''class'' [''a '', []])]\<rparr>)"
  by code_simp

text \<open>
  C9. A template with no part descriptor and no match of the marker scan: the loop
  condition is false at once, so the loop body never runs. The pass ends in the state
  it started in: the Parts list is empty, no collaborator has been called, the fragment
  is the clone of the template's content. \<^verbatim>\<open>_clone\<close> returns that fragment (after
  \<^verbatim>\<open>adoptNode\<close> and \<^verbatim>\<open>upgrade\<close> when the polyfill is in use, lines 201-204).
\<close>

theorem empty_template_clone_and_return:
  assumes "parts (this_template this) = []"
    and "customElementOpeningTagRe h (innerHTML (element (this_template this))) = 0"
  shows "\<not> loop_condition this (clone_init h this)
       \<and> clone_loop h this (clone_init h this) = Some (Inr (clone_init h this))
       \<and> this_parts (clone_init h this) = []
       \<and> calls (clone_init h this) = []
       \<and> fragment (clone_init h this) = contentOf (element (this_template this))
       \<and> clone h this =
           Some (Inr ((clone_init h this)
             \<lparr>fragment := (if isCEPolyfill h
                            then adoptAndUpgrade h (contentOf (element (this_template this)))
                            else contentOf (element (this_template this)))\<rparr>))"
proof -
  have stop: "\<not> loop_condition this (clone_init h this)"
    using assms by (simp add: loop_condition_def clone_init_def)
  then have loop: "clone_loop h this (clone_init h this) = Some (Inr (clone_init h this))"
    by (subst clone_loop.simps) simp
  have fields: "this_parts (clone_init h this) = []" "calls (clone_init h this) = []"
    "fragment (clone_init h this) = contentOf (element (this_template this))"
    by (simp_all add: clone_init_def)
  have "clone h this =
           Some (Inr ((clone_init h this)
             \<lparr>fragment := (if isCEPolyfill h
                            then adoptAndUpgrade h (contentOf (element (this_template this)))
                            else contentOf (element (this_template this)))\<rparr>))"
    using fields(3) by (simp add: clone_def loop)
  with stop loop fields show ?thesis by blast
qed

theorem empty_template_clone_and_return_witness:
  "clone (example_host ''x'' Map.empty)
     (example_instance [Element ''p'' [] [Text ''hi''] []] [] holes_processor None) =
   Some (Inr \<lparr>fragment = [Element ''p'' [] [Text ''hi''] []], stack = [],
          currentNode = [Child 0], partIndex = 0, nodeIndex = 0,
          node = Some [Child 0], customElementsCount = 0, this_parts = [],
          calls = []\<rparr>)"
proof -
  let ?H = "example_host ''x'' Map.empty"
  let ?I = "example_instance [Element ''p'' [] [Text ''hi''] []] [] holes_processor None"
  have no_parts: "parts (this_template ?I) = []"
    by (simp add: example_instance_def)
  have no_marker: "customElementOpeningTagRe ?H (innerHTML (element (this_template ?I))) = 0"
    by code_simp
  have init: "clone_init ?H ?I =
      \<lparr>fragment = [Element ''p'' [] [Text ''hi''] []], stack = [],
          currentNode = [Child 0], partIndex = 0, nodeIndex = 0,
          node = Some [Child 0], customElementsCount = 0, this_parts = [],
          calls = []\<rparr>"
    by code_simp
  from empty_template_clone_and_return[OF no_parts no_marker]
  show ?thesis
    unfolding init by (simp add: example_host_def example_instance_def)
qed

lemma startsWith_append: "startsWith (pat @ rest) pat"
  by (induction pat) simp_all

lemma includes_str_append: "includes_str (before @ pat @ rest) pat"
proof (induction before)
  case Nil
  show ?case
    using startsWith_append[of pat rest] by (cases "pat @ rest") auto
next
  case (Cons c before)
  then show ?case by simp
qed

lemma resolve_component_unresolved:
  assumes "node s = Some r" and "node_at (fragment s) r = Some placeholder"
    and "declarations ctx (replace (localNameOf placeholder) (mark h @ ''-'') []) = None"
    and "customElements_get h (replace (localNameOf placeholder) (mark h @ ''-'') []) = None"
  shows "resolve_component h ctx s =
     Inl (Error (unresolved_message (replace (localNameOf placeholder) (mark h @ ''-'') [])),
          s\<lparr>customElementsCount := customElementsCount s - 1\<rparr>)"
  using assms by (simp add: resolve_component_def Let_def)

text \<open>
  The slot test of line 163 looks at the node an iteration of the loop has stopped at.
  When that node is an element whose name includes the marker, a context is present and
  neither the declarations of the context nor the global registry know the selector
  (the name with the first \<open>mark-\<close> removed), the pass ends there with the \<^verbatim>\<open>Error\<close> of
  line 170, whose message includes the selector. In the state of the throw the tree and
  the calls made are those from before the iteration: no constructor has been called and
  no node replaced. Only the counter has been decremented (line 165).
\<close>

lemma slot_at_stop_unresolved_throws:
  assumes cond: "loop_condition this s"
    and active: "case current_part this s of Some p \<Rightarrow> isTemplatePartActive h p | None \<Rightarrow> True"
    and aligned: "align (current_part this s) s = Inr s1"
    and at: "node s1 = Some r" "node_at (fragment s1) r = Some placeholder"
    and slot: "nodeType placeholder = 1" "includes_str (localNameOf placeholder) (mark h)"
    and ctx: "this_context this = Some ctx"
    and selector: "selector = replace (localNameOf placeholder) (mark h @ ''-'') []"
    and unknown: "declarations ctx selector = None" "customElements_get h selector = None"
  shows "clone_loop h this s =
           Some (Inl (Error (unresolved_message selector),
                      s1\<lparr>customElementsCount := customElementsCount s1 - 1\<rparr>))
       \<and> includes_str (unresolved_message selector) selector
       \<and> fragment s1 = fragment s \<and> calls s1 = calls s \<and> this_parts s1 = this_parts s"
proof -
  have custom: "isCustomElement h s1"
    using at slot by (simp add: isCustomElement_def)
  have "resolve_if_custom h this s1 =
      Inl (Error (unresolved_message selector), s1\<lparr>customElementsCount := customElementsCount s1 - 1\<rparr>)"
    using resolve_component_unresolved[OF at, of ctx h] unknown custom ctx
    unfolding selector by (simp add: resolve_if_custom_def)
  moreover have "\<not> (case current_part this s of Some p \<Rightarrow> \<not> isTemplatePartActive h p | None \<Rightarrow> False)"
    using active by (cases "current_part this s") simp_all
  ultimately have step: "clone_step h this s =
      Inl (Error (unresolved_message selector), s1\<lparr>customElementsCount := customElementsCount s1 - 1\<rparr>)"
    using aligned by (simp add: clone_step_def Let_def)
  have loop: "clone_loop h this s =
           Some (Inl (Error (unresolved_message selector),
                      s1\<lparr>customElementsCount := customElementsCount s1 - 1\<rparr>))"
    using cond step by (subst clone_loop.simps) simp
  have msg: "includes_str (unresolved_message selector) selector"
    unfolding unresolved_message_def by (rule includes_str_append)
  from align_same_bindings[of "current_part this s" s undefined s1] aligned
  have "fragment s1 = fragment s \<and> calls s1 = calls s \<and> this_parts s1 = this_parts s"
    by (simp add: same_bindings_def)
  with loop msg show ?thesis by blast
qed

text \<open>
  For example, a placeholder that follows a text node, in a template with no part
  descriptor: the first iteration moves the walker from the text node to the placeholder
  (line 160) and throws.
\<close>

lemma slot_at_stop_unresolved_throws_example:
  "clone (example_host ''x'' Map.empty)
     (example_instance [Text '' '', Element ''x-widget'' [] [] []] [] holes_processor
        (Some \<lparr>declarations = Map.empty\<rparr>)) =
   Some (Inl (Error ''Make sure that you've added widget into declarations!'',
        \<lparr>fragment = [Text '' '', Element ''x-widget'' [] [] []], stack = [],
           currentNode = [Child 1], partIndex = 0, nodeIndex = 0,
           node = Some [Child 1], customElementsCount = 0, this_parts = [],
           calls = []\<rparr>))"
proof -
  let ?H = "example_host ''x'' Map.empty"
  let ?C = "\<lparr>declarations = Map.empty\<rparr> :: string Context"
  let ?I = "example_instance [Text '' '', Element ''x-widget'' [] [] []] [] holes_processor (Some ?C)"
  let ?S = "\<lparr>fragment = [Text '' '', Element ''x-widget'' [] [] []], stack = [],
           currentNode = [Child 0], partIndex = 0, nodeIndex = 0,
           node = Some [Child 0], customElementsCount = 1, this_parts = [],
           calls = []\<rparr> :: (string, example_part, unit) clone_state"
  let ?S1 = "\<lparr>fragment = [Text '' '', Element ''x-widget'' [] [] []], stack = [],
           currentNode = [Child 1], partIndex = 0, nodeIndex = 0,
           node = Some [Child 1], customElementsCount = 1, this_parts = [],
           calls = []\<rparr> :: (string, example_part, unit) clone_state"
  have init: "clone_init ?H ?I = ?S" by code_simp
  have cond: "loop_condition ?I ?S" by code_simp
  have part: "current_part ?I ?S = None" by code_simp
  have active: "case current_part ?I ?S of Some p \<Rightarrow> isTemplatePartActive ?H p | None \<Rightarrow> True"
    unfolding part by simp
  have aligned: "align (current_part ?I ?S) ?S = Inr ?S1" by code_simp
  have at: "node ?S1 = Some [Child 1]"
    "node_at (fragment ?S1) [Child 1] = Some (Element ''x-widget'' [] [] [])"
    by code_simp+
  have slot: "nodeType (Element ''x-widget'' [] [] []) = 1"
    "includes_str (localNameOf (Element ''x-widget'' [] [] [])) (mark ?H)"
    by code_simp+
  have ctx: "this_context ?I = Some ?C" by (simp add: example_instance_def)
  have selector: "''widget'' = replace (localNameOf (Element ''x-widget'' [] [] [])) (mark ?H @ ''-'') []"
    by code_simp
  have unknown: "declarations ?C ''widget'' = None" "customElements_get ?H ''widget'' = None"
    by (simp_all add: example_host_def)
  from slot_at_stop_unresolved_throws[OF cond active aligned at slot ctx selector unknown]
  have "clone_loop ?H ?I ?S =
      Some (Inl (Error (unresolved_message ''widget''), ?S1\<lparr>customElementsCount := customElementsCount ?S1 - 1\<rparr>))"
    by blast
  then show ?thesis
    by (simp add: clone_def init unresolved_message_def)
qed

text \<open>
  C5 fails on the code. The template \<^verbatim>\<open><x-widget></x-widget>\<close> is instantiated with a
  context whose declarations are empty and with an empty registry: the node the walker
  starts at (line 128) is a component slot, its selector \<open>widget\<close> is unknown to both,
  and line 170 applied to that node would throw the error that names \<open>widget\<close>. But the
  template has no part descriptor, so the first iteration moves the walker on (line 160)
  before line 163 looks at the node: the slot is never examined, no error is thrown, the
  counter stays at 1 and the pass never returns.
\<close>

theorem unresolved_slot_never_examined:
  "clone (example_host ''x'' Map.empty)
     (example_instance [Element ''x-widget'' [] [] []] [] holes_processor
        (Some \<lparr>declarations = Map.empty\<rparr>)) = None
   \<and> isCustomElement (example_host ''x'' Map.empty)
       (clone_init (example_host ''x'' Map.empty)
          (example_instance [Element ''x-widget'' [] [] []] [] holes_processor
             (Some \<lparr>declarations = Map.empty\<rparr>)))
   \<and> replace (localNameOf (Element ''x-widget'' [] [] []))
       (mark (example_host ''x'' Map.empty) @ ''-'') [] = ''widget''
   \<and> declarations \<lparr>declarations = (Map.empty :: string \<Rightarrow> string option)\<rparr> ''widget'' = None
   \<and> customElements_get (example_host ''x'' Map.empty) ''widget'' = None
   \<and> map_sum fst (\<lambda>s. ())
       (resolve_if_custom (example_host ''x'' Map.empty)
          (example_instance [Element ''x-widget'' [] [] []] [] holes_processor
             (Some \<lparr>declarations = Map.empty\<rparr>))
          (clone_init (example_host ''x'' Map.empty)
             (example_instance [Element ''x-widget'' [] [] []] [] holes_processor
                (Some \<lparr>declarations = Map.empty\<rparr>)))) =
     Inl (Error ''Make sure that you've added widget into declarations!'')"
proof -
  have never: "clone (example_host ''x'' Map.empty)
     (example_instance [Element ''x-widget'' [] [] []] [] holes_processor
        (Some \<lparr>declarations = Map.empty\<rparr>)) = None"
    using lone_slot_loop_diverges[of "''x''" Map.empty holes_processor
        "Some \<lparr>declarations = Map.empty\<rparr>"]
    by (simp add: clone_def)
  have slot: "isCustomElement (example_host ''x'' Map.empty)
       (clone_init (example_host ''x'' Map.empty)
          (example_instance [Element ''x-widget'' [] [] []] [] holes_processor
             (Some \<lparr>declarations = Map.empty\<rparr>)))"
    by code_simp
  have selector: "replace (localNameOf (Element ''x-widget'' [] [] []))
       (mark (example_host ''x'' Map.empty) @ ''-'') [] = ''widget''"
    by code_simp
  have unknown: "declarations \<lparr>declarations = (Map.empty :: string \<Rightarrow> string option)\<rparr> ''widget'' = None"
    "customElements_get (example_host ''x'' Map.empty) ''widget'' = None"
    by (simp_all add: example_host_def)
  have expected: "map_sum fst (\<lambda>s. ())
       (resolve_if_custom (example_host ''x'' Map.empty)
          (example_instance [Element ''x-widget'' [] [] []] [] holes_processor
             (Some \<lparr>declarations = Map.empty\<rparr>))
          (clone_init (example_host ''x'' Map.empty)
             (example_instance [Element ''x-widget'' [] [] []] [] holes_processor
                (Some \<lparr>declarations = Map.empty\<rparr>)))) =
     Inl (Error ''Make sure that you've added widget into declarations!'')"
    by code_simp
  from never slot selector unknown expected show ?thesis
    by (intro conjI)
qed

text \<open>
  A slot that the inner loop walks past (lines 144-158) is not examined either. The
  element \<^verbatim>\<open><xa>\<close> includes the marker \<open>x\<close> and its selector \<open>xa\<close> is unknown to the
  declarations and to the registry; the only descriptor is on the \<^verbatim>\<open>div\<close> after it. The
  pass binds the descriptor and returns: the slot is still in the tree and nothing was
  thrown. (The marker scan does not count \<^verbatim>\<open><xa>\<close>, which has no hyphen; had it counted
  the slot, the pass would not return, as above.)
\<close>

lemma walked_past_slot_is_left_unresolved:
  "clone (example_host ''x'' Map.empty)
     (example_instance [Element ''xa'' [] [] [], Element ''div'' [] [] []]
        [AttributePart 1 ''class'' [''a '', '''']] holes_processor
        (Some \<lparr>declarations = Map.empty\<rparr>)) =
   Some (Inr \<lparr>fragment = [Element ''xa'' [] [] [], Element ''div'' [] [] []],
          stack = [], currentNode = [Child 1], partIndex = 1, nodeIndex = 1,
          node = Some [Child 1], customElementsCount = 0,
          this_parts = [Some (ExampleAttributePart ''class'' 0)],
          calls =
            [HandleAttributeExpressions (Some [Child 1]) ''class'' [''a '', []] ()
               (AttributePart 1 ''class'' [''a '', []])]\<rparr>)"
  by code_simp

lemma kids_butlast_valid:
  "node_at roots (Child i # up) = Some n \<Longrightarrow> j \<le> i \<Longrightarrow> node_at roots (Child j # up) \<noteq> None"
  by (auto simp: node_at_def split: option.splits if_splits)

lemma previousSibling_of_later_child:
  assumes "node_at roots (Child i # up) = Some n" and "0 < i"
  shows "previousSibling roots (Child i # up) = Some (Child (i - 1) # up)"
  using assms by (auto simp: node_at_def previousSibling_def split: option.splits if_splits)

text \<open>
  An iteration that binds an active node descriptor passes to \<^verbatim>\<open>insertAfterNode\<close> the
  previous sibling of the node the walker is at after alignment and slot resolution
  (line 190). When that node is the \<open>i\<close>-th child of its parent with \<open>0 < i\<close>, the anchor
  is the child \<open>i - 1\<close> of the same parent. Whether the walker is then at the node that
  the descriptor's position denotes in the template is another matter, settled below.
\<close>

lemma node_part_anchor_of_later_child:
  assumes part: "current_part this s = Some (NodePart k)"
    and active: "isTemplatePartActive h (NodePart k)"
    and aligned: "align (Some (NodePart k)) s = Inr s1"
    and resolved: "resolve_if_custom h this s1 = Inr s2"
    and at: "node s2 = Some (Child i # up)" "node_at (fragment s2) (Child i # up) = Some n"
    and later: "0 < i"
  shows "clone_step h this s =
           Inr (s2\<lparr>calls := calls s2 @
                       [HandleTextExpression (this_options this) (NodePart k),
                        InsertAfterNode
                          (handleTextExpression (this_processor this) (this_options this) (NodePart k))
                          (Some (Child (i - 1) # up))],
                    this_parts := this_parts s2 @
                       [Some (handleTextExpression (this_processor this) (this_options this) (NodePart k))],
                    partIndex := partIndex s2 + 1\<rparr>)
       \<and> previousSibling (fragment s2) (Child i # up) = Some (Child (i - 1) # up)
       \<and> node_at (fragment s2) (Child (i - 1) # up) \<noteq> None"
proof -
  have prev: "previousSibling (fragment s2) (Child i # up) = Some (Child (i - 1) # up)"
    using previousSibling_of_later_child[OF at(2) later] .
  have valid: "node_at (fragment s2) (Child (i - 1) # up) \<noteq> None"
    using kids_butlast_valid[OF at(2), of "i - 1"] by simp
  have "bind_part this (Some (NodePart k)) s2 =
           Inr (s2\<lparr>calls := calls s2 @
                       [HandleTextExpression (this_options this) (NodePart k),
                        InsertAfterNode
                          (handleTextExpression (this_processor this) (this_options this) (NodePart k))
                          (Some (Child (i - 1) # up))],
                    this_parts := this_parts s2 @
                       [Some (handleTextExpression (this_processor this) (this_options this) (NodePart k))],
                    partIndex := partIndex s2 + 1\<rparr>)"
    using at(1) prev by (simp add: bind_part_def Let_def)
  then have "clone_step h this s =
           Inr (s2\<lparr>calls := calls s2 @
                       [HandleTextExpression (this_options this) (NodePart k),
                        InsertAfterNode
                          (handleTextExpression (this_processor this) (this_options this) (NodePart k))
                          (Some (Child (i - 1) # up))],
                    this_parts := this_parts s2 @
                       [Some (handleTextExpression (this_processor this) (this_options this) (NodePart k))],
                    partIndex := partIndex s2 + 1\<rparr>)"
    using part active aligned resolved by (simp add: clone_step_def Let_def)
  with prev valid show ?thesis by blast
qed

text \<open>
  For example, a node descriptor at the second comment of a \<^verbatim>\<open>div\<close>, in a template
  without component slots.
\<close>

lemma node_part_anchor_of_later_child_example:
  "clone_step (example_host ''x'' Map.empty)
     (example_instance [Element ''div'' [] [Comment '''', Comment ''m''] []] [NodePart 2]
        holes_processor None)
     \<lparr>fragment = [Element ''div'' [] [Comment '''', Comment ''m''] []], stack = [],
        currentNode = [Child 0], partIndex = 0, nodeIndex = 0, node = Some [Child 0],
        customElementsCount = 0, this_parts = [], calls = []\<rparr> =
   Inr \<lparr>fragment = [Element ''div'' [] [Comment '''', Comment ''m''] []], stack = [],
        currentNode = [Child 1, Child 0], partIndex = 1, nodeIndex = 2,
        node = Some [Child 1, Child 0], customElementsCount = 0,
        this_parts = [Some ExampleNodePart],
        calls = [HandleTextExpression () (NodePart 2),
                 InsertAfterNode ExampleNodePart (Some [Child 0, Child 0])]\<rparr>"
proof -
  let ?H = "example_host ''x'' Map.empty"
  let ?I = "example_instance [Element ''div'' [] [Comment '''', Comment ''m''] []] [NodePart 2]
        holes_processor None"
  let ?S = "\<lparr>fragment = [Element ''div'' [] [Comment '''', Comment ''m''] []], stack = [],
        currentNode = [Child 0], partIndex = 0, nodeIndex = 0, node = Some [Child 0],
        customElementsCount = 0, this_parts = [], calls = []\<rparr>
        :: (string, example_part, unit) clone_state"
  let ?S2 = "\<lparr>fragment = [Element ''div'' [] [Comment '''', Comment ''m''] []], stack = [],
        currentNode = [Child 1, Child 0], partIndex = 0, nodeIndex = 2,
        node = Some [Child 1, Child 0], customElementsCount = 0, this_parts = [],
        calls = []\<rparr> :: (string, example_part, unit) clone_state"
  have part: "current_part ?I ?S = Some (NodePart 2)" by code_simp
  have active: "isTemplatePartActive ?H (NodePart 2)" by code_simp
  have aligned: "align (Some (NodePart 2)) ?S = Inr ?S2" by code_simp
  have resolved: "resolve_if_custom ?H ?I ?S2 = Inr ?S2" by code_simp
  have at: "node ?S2 = Some (Child 1 # [Child 0])"
    "node_at (fragment ?S2) (Child 1 # [Child 0]) = Some (Comment ''m'')"
    by code_simp+
  have later: "0 < (1::nat)" by simp
  from node_part_anchor_of_later_child[OF part active aligned resolved at later]
  show ?thesis
    by (simp add: example_instance_def holes_processor_def)
qed

text \<open>
  C10 fails on the code. The positions of the descriptors count the nodes of the
  template, but the resolution of a component slot replaces the placeholder and its
  subtree by the instance with one text node (lines 174-175), and \<^verbatim>\<open>nodeIndex\<close> is not
  adjusted. In the template
  \<^verbatim>\<open><x-widget title=...><b>hi</b>!</x-widget><div><!----><!----></div><p>z</p>\<close>
  the attribute descriptor is at position 0, the placeholder, and the node descriptor at
  position 6, the second comment of the \<^verbatim>\<open>div\<close>, whose previous sibling is the first
  comment. The placeholder and its subtree are four nodes, the instance and its text two:
  after the resolution the six steps of the walker end two nodes later, at the text \<open>z\<close>,
  the first child of the \<^verbatim>\<open>p\<close>. The pass binds the node Part there and passes \<^verbatim>\<open>null\<close>
  to \<^verbatim>\<open>insertAfterNode\<close>, under the non-null assertion of line 190.
\<close>

theorem node_part_anchor_null_after_slot:
  "clone (example_host ''x'' Map.empty)
     (example_instance
        [Element ''x-widget'' [] [Element ''b'' [] [Text ''hi''] [], Text ''!''] [],
         Element ''div'' [] [Comment '''', Comment ''''] [],
         Element ''p'' [] [Text ''z''] []]
        [AttributePart 0 ''title'' ['''', ''''], NodePart 6] holes_processor
        (Some \<lparr>declarations = [''widget'' \<mapsto> ''my-widget'']\<rparr>)) =
   Some (Inr \<lparr>fragment =
            [Element ''my-widget'' [] [Text ''<b>hi</b>!''] [],
             Element ''div'' [] [Comment '''', Comment ''''] [],
             Element ''p'' [] [Text ''z''] []],
          stack = [], currentNode = [Child 0, Child 2], partIndex = 2, nodeIndex = 6,
          node = Some [Child 0, Child 2], customElementsCount = 0,
          this_parts = [Some (ExampleAttributePart ''title'' 0), Some ExampleNodePart],
          calls =
            [New ''my-widget'',
             HandleAttributeExpressions (Some [Child 0]) ''title'' ['''', ''''] ()
               (AttributePart 0 ''title'' ['''', '''']),
             HandleTextExpression () (NodePart 6),
             InsertAfterNode ExampleNodePart None]\<rparr>)
   \<and> (case align (Some (NodePart 6))
             (clone_init (example_host ''x'' Map.empty)
                (example_instance
                   [Element ''x-widget'' [] [Element ''b'' [] [Text ''hi''] [], Text ''!''] [],
                    Element ''div'' [] [Comment '''', Comment ''''] [],
                    Element ''p'' [] [Text ''z''] []]
                   [AttributePart 0 ''title'' ['''', ''''], NodePart 6] holes_processor
                   (Some \<lparr>declarations = [''widget'' \<mapsto> ''my-widget'']\<rparr>))) of
         Inr s \<Rightarrow> node s = Some [Child 1, Child 1] \<and>
                  node_at (fragment s) [Child 1, Child 1] = Some (Comment '''') \<and>
                  previousSibling (fragment s) [Child 1, Child 1] = Some [Child 0, Child 1]
       | Inl e \<Rightarrow> False)"
  by code_simp










text \<open>
  C6 fails on the code. The template \<^verbatim>\<open><x-widget></x-widget>\<close> has no part and one match of
  the marker scan, so the loop condition is \<open>0 < 0 + 1\<close>. The first \<^verbatim>\<open>walker.nextNode()\<close>
  (line 128) is at the element already; each iteration asks the walker for one more node
  (line 160), gets none, finds no component slot at \<^verbatim>\<open>null\<close>, and changes nothing else:
  the counter stays at 1. The pass never returns, with or without a context, whatever
  the declarations, the registry and the processor are.
\<close>

theorem clone_never_returns:
  "clone (example_host marker registry)
     (example_instance [Element ''x-widget'' [] [] []] [] processor ctx) = None"
  using lone_slot_loop_diverges[of marker registry processor ctx]
  by (simp add: clone_def)

text \<open>
  C2 fails on the code. The global registry is asked only whether it knows the
  selector (line 169); the constructor that is called is always the one looked up in
  the declarations (line 172). With the placeholder \<^verbatim>\<open><x-my-widget>\<close>, empty declarations
  and a registry that knows \<^verbatim>\<open>my-widget\<close>, the \<^verbatim>\<open>Error\<close> of line 170 is not thrown and
  \<^verbatim>\<open>new ctor(this.context)\<close> is evaluated with \<^verbatim>\<open>ctor\<close> undefined: a \<^verbatim>\<open>TypeError\<close>. No
  constructor is called and the placeholder stays in the tree.
\<close>

theorem registry_fallback_throws:
  "clone (example_host ''x'' [''my-widget'' \<mapsto> ''my-widget''])
     (example_instance [Text '' '', Element ''x-my-widget'' [] [] []] [] holes_processor
        (Some \<lparr>declarations = Map.empty\<rparr>)) =
   Some (Inl (TypeError,
        \<lparr>fragment = [Text '' '', Element ''x-my-widget'' [] [] []],
           stack = [], currentNode = [Child 1], partIndex = 0,
           nodeIndex = 0, node = Some [Child 1], customElementsCount = 0,
           this_parts = [], calls = []\<rparr>))
   \<and> customElements_get (example_host ''x'' [''my-widget'' \<mapsto> ''my-widget''])
       (replace ''x-my-widget'' (mark (example_host ''x'' [''my-widget'' \<mapsto> ''my-widget'']) @ ''-'') []) =
     Some ''my-widget''"
  by code_simp

text \<open>
  C4 fails on the code. The loop of lines 177-181 counts \<open>i\<close> up over the live
  \<^verbatim>\<open>attributes\<close> of the old node while it removes from it: after the first attribute is
  moved, the second is at index 0 and \<open>i\<close> is 1. Of two attributes only the first is
  moved: the placeholder keeps \<open>b\<close>, and the instance does not get it. (Of three, the
  second stays behind.)
\<close>

theorem attributes_left_behind:
  "move_attributes 0 (Element ''x-widget'' [(''a'', ''1''), (''b'', ''2'')] [] [])
     [Text '' '', Element ''my-widget'' [] [] []] [Child 1] =
     (Element ''x-widget'' [(''b'', ''2'')] [] [],
      [Text '' '', Element ''my-widget'' [(''a'', ''1'')] [] []])
   \<and> move_attributes 0 (Element ''x-widget'' [(''a'', ''1''), (''b'', ''2''), (''c'', ''3'')] [] [])
     [Text '' '', Element ''my-widget'' [] [] []] [Child 1] =
     (Element ''x-widget'' [(''b'', ''2'')] [] [],
      [Text '' '', Element ''my-widget'' [(''a'', ''1''), (''c'', ''3'')] [] []])
   \<and> clone (example_host ''x'' Map.empty)
       (example_instance [Text '' '', Element ''x-widget'' [(''a'', ''1''), (''b'', ''2'')] [] []] []
          holes_processor (Some \<lparr>declarations = [''widget'' \<mapsto> ''my-widget'']\<rparr>)) =
     Some (Inr \<lparr>fragment = [Text '' '', Element ''my-widget'' [(''a'', ''1'')] [] []],
          stack = [], currentNode = [Child 1], partIndex = 0, nodeIndex = 0,
          node = Some [Child 1], customElementsCount = 0, this_parts = [],
          calls = [New ''my-widget'']\<rparr>)"
  by code_simp

end
